theory Spec2Isabelle
  imports Main
begin

section \<open>Python values, exceptions and the log\<close>

text \<open>
  The development embeds the orchestration code of the music downloader: the identity
  resolver and the retrying compressor (FileCompression.py), the download step
  (NetworkOperations.py), the conversion step (DataProcessing.py), the tagging step
  (AudioTrackProcessing.py) and the two worker pools (ConcurrentTasks.py).

  Every exception the code handles is a subclass of Python's \<open>Exception\<close>, so one
  datatype of exceptions suffices and \<open>except Exception\<close> is a match on \<open>Inl\<close>.
  External collaborators (the mutagen tag library, the file system, the you-get and
  ffmpeg processes, the browser session) are oracles: records of what each call answers.
\<close>

type_synonym path = string

datatype exn =
    ID3NoHeaderError
  | MutagenError
  | IndexError
  | OSError
  | FileNotFoundError
  | FileExistsError
  | TimeoutExpired
  | WebDriverException
  | StageFailed string

datatype level = DEBUG | INFO | WARNING | ERROR

type_synonym log = "(level \<times> string) list"

text \<open>\<open>str(n)\<close> of a non-negative Python integer: its decimal digits.\<close>

fun str_nat :: "nat \<Rightarrow> string" where
  "str_nat n =
     (if n < 10 then [char_of (48 + n)]
      else str_nat (n div 10) @ [char_of (48 + n mod 10)])"

definition startswith :: "string \<Rightarrow> string \<Rightarrow> bool" where
  "startswith s p = (take (length p) s = p)"

definition endswith :: "string \<Rightarrow> string \<Rightarrow> bool" where
  "endswith s p = (drop (length s - length p) s = p \<and> length p \<le> length s)"

text \<open>\<open>os.path.join\<close>, \<open>os.path.basename\<close> and the root of \<open>os.path.splitext\<close>, in
  their POSIX flavour (separator \<open>/\<close>).\<close>

definition os_path_join :: "path \<Rightarrow> string \<Rightarrow> path" where
  "os_path_join a b =
     (if startswith b ''/'' then b
      else if a = [] \<or> endswith a ''/'' then a @ b
      else a @ ''/'' @ b)"

definition basename :: "path \<Rightarrow> string" where
  "basename p = rev (takeWhile (\<lambda>c. c \<noteq> CHR ''/'') (rev p))"

definition splitext_root :: "path \<Rightarrow> string" where
  "splitext_root p =
     (let name = basename p;
          ext = rev (takeWhile (\<lambda>c. c \<noteq> CHR ''.'') (rev name));
          stem = take (length name - length ext - 1) name
      in if CHR ''.'' \<in> set name \<and> filter (\<lambda>c. c \<noteq> CHR ''.'') stem \<noteq> []
         then take (length p - length ext - 1) p
         else p)"

section \<open>ID3 tags as mutagen presents them\<close>

text \<open>
  A loaded tag is a dictionary from frame hash keys (\<open>TIT3\<close>, \<open>APIC:Cover\<close>, ...) to
  frames, kept as an association list in insertion order. \<open>getall\<close> and \<open>delall\<close>
  address a frame identifier: the key itself when it is present, otherwise every key
  that starts with the identifier followed by a colon. \<open>add\<close> stores a frame under
  its hash key.
\<close>

datatype frame = TextFrame string | UrlFrame string | PictureFrame string string

type_synonym tags = "(string \<times> frame) list"

fun frame_str :: "frame \<Rightarrow> string" where
  "frame_str (TextFrame t) = t"
| "frame_str (UrlFrame u) = u"
| "frame_str (PictureFrame mime data) = mime"

definition has_key :: "tags \<Rightarrow> string \<Rightarrow> bool" where
  "has_key t k = (k \<in> fst ` set t)"

definition getall :: "tags \<Rightarrow> string \<Rightarrow> frame list" where
  "getall t k =
     (if has_key t k then map snd (filter (\<lambda>kv. fst kv = k) t)
      else map snd (filter (\<lambda>kv. startswith (fst kv) (k @ '':'')) t))"

definition delall :: "tags \<Rightarrow> string \<Rightarrow> tags" where
  "delall t k =
     (if has_key t k then filter (\<lambda>kv. fst kv \<noteq> k) t
      else filter (\<lambda>kv. \<not> startswith (fst kv) (k @ '':'')) t)"

fun add :: "tags \<Rightarrow> string \<times> frame \<Rightarrow> tags" where
  "add [] kv = [kv]"
| "add (kv' # t) kv = (if fst kv' = fst kv then kv # t else kv' # add t kv)"

text \<open>The entries of a tag that \<open>getall\<close> and \<open>delall\<close> address under an identifier.\<close>

definition addressed :: "string \<Rightarrow> tags \<Rightarrow> tags" where
  "addressed k t = filter (\<lambda>kv. fst kv = k \<or> startswith (fst kv) (k @ '':'')) t"

datatype id3_load = NoHeader | Unreadable | Tags tags

section \<open>The file system\<close>

text \<open>
  The directories that exist, the files in them as (directory, name) pairs in listing
  order, and for every path what \<open>ID3(path)\<close> and \<open>os.path.getsize(path)\<close> answer
  (\<open>None\<close>: \<open>getsize\<close> raises \<open>OSError\<close>, as for a path that does not exist).
\<close>

record world =
  directories :: "path list"
  entries :: "(path \<times> string) list"
  id3_of :: "path \<Rightarrow> id3_load"
  size_of :: "path \<Rightarrow> nat option"

definition isdir :: "world \<Rightarrow> path \<Rightarrow> bool" where
  "isdir w p = (p \<in> set (directories w))"

definition listdir :: "world \<Rightarrow> path \<Rightarrow> string list" where
  "listdir w p = map snd (filter (\<lambda>e. fst e = p) (entries w))"

definition isfile :: "world \<Rightarrow> path \<Rightarrow> bool" where
  "isfile w p = (p \<in> (\<lambda>e. os_path_join (fst e) (snd e)) ` set (entries w))"

definition ID3 :: "world \<Rightarrow> path \<Rightarrow> exn + tags" where
  "ID3 w p =
     (case id3_of w p of
        NoHeader \<Rightarrow> Inl ID3NoHeaderError
      | Unreadable \<Rightarrow> Inl MutagenError
      | Tags t \<Rightarrow> Inr t)"

definition os_path_getsize :: "world \<Rightarrow> path \<Rightarrow> exn + nat" where
  "os_path_getsize w p = (case size_of w p of None \<Rightarrow> Inl OSError | Some n \<Rightarrow> Inr n)"

section \<open>Identity resolver (FileCompression.py)\<close>

text \<open>\<open>str(audio.getall("TIT3")[0])\<close>: indexing the empty list raises \<open>IndexError\<close>.\<close>

definition first_TIT3 :: "tags \<Rightarrow> exn + string" where
  "first_TIT3 t =
     (case getall t ''TIT3'' of [] \<Rightarrow> Inl IndexError | f # _ \<Rightarrow> Inr (frame_str f))"

definition size_fallback :: "world \<Rightarrow> path \<Rightarrow> exn + string" where
  "size_fallback w p =
     (case os_path_getsize w p of Inl e \<Rightarrow> Inl e | Inr n \<Rightarrow> Inr (str_nat n))"

text \<open>
  \<open>get_file_identifier\<close>: the \<open>try\<close> body loads the tag and reads the first TIT3
  frame; the handler for \<open>ID3NoHeaderError\<close> warns, the handler for any other
  exception logs an error, and both return \<open>str(os.path.getsize(file_path))\<close>, which
  is evaluated inside the handler and so is not itself guarded.
\<close>

definition get_file_identifier :: "world \<Rightarrow> path \<Rightarrow> log \<times> (exn + string)" where
  "get_file_identifier w file_path =
     (case (case ID3 w file_path of Inl e \<Rightarrow> Inl e | Inr audio \<Rightarrow> first_TIT3 audio) of
        Inr s \<Rightarrow> ([], Inr s)
      | Inl ID3NoHeaderError \<Rightarrow>
          ([(WARNING, ''file has no ID3 header'')], size_fallback w file_path)
      | Inl e \<Rightarrow>
          ([(ERROR, ''reading the file identifier failed'')], size_fallback w file_path))"

text \<open>\<open>get_existing_identifiers\<close>: one resolver call per listed file; a call that
  raises is caught (and logged) and contributes nothing.\<close>

fun existing_loop :: "world \<Rightarrow> path \<Rightarrow> string list \<Rightarrow> string set \<Rightarrow> string set" where
  "existing_loop w output_dir [] identifiers = identifiers"
| "existing_loop w output_dir (file # files) identifiers =
     (case snd (get_file_identifier w (os_path_join output_dir file)) of
        Inr i \<Rightarrow> existing_loop w output_dir files (insert i identifiers)
      | Inl e \<Rightarrow> existing_loop w output_dir files identifiers)"

definition get_existing_identifiers :: "world \<Rightarrow> path \<Rightarrow> string set" where
  "get_existing_identifiers w output_dir =
     existing_loop w output_dir (listdir w output_dir) {}"

section \<open>The retrying compressor (FileCompression.py)\<close>

text \<open>
  The configuration dictionary: its integer-valued top-level keys (\<open>retry\<close>,
  \<open>load_time\<close>, ...) and the optional \<open>Timeout_Period\<close> table.
\<close>

record config =
  cfg_keys :: "(string \<times> int) list"
  cfg_timeout_period :: "(string \<times> int) list option"

definition default_timeout :: "(string \<times> int) list" where
  "default_timeout =
     [(''load_time'', 5), (''compress_time'', 20), (''completion_time'', 100)]"

definition dict_get :: "(string \<times> 'v) list \<Rightarrow> string \<Rightarrow> 'v \<Rightarrow> 'v" where
  "dict_get d k dflt = (case map_of d k of None \<Rightarrow> dflt | Some v \<Rightarrow> v)"

text \<open>
  The compressor object: whether \<open>self.browser\<close> holds a session, the retry bound,
  the mutable timeout table, the name of the file in hand; and, for the claims, the
  attempt numbers run so far, the waits slept so far and the log.
\<close>

record compressor =
  self_browser :: bool
  self_retry :: int
  self_timeouts :: "(string \<times> int) list"
  self_file_name :: "string option"
  attempted :: "int list"
  slept :: "int list"
  clog :: log

definition AudioCompressor :: "config \<Rightarrow> compressor" where
  "AudioCompressor cfg =
     (let timeout = (case cfg_timeout_period cfg of None \<Rightarrow> default_timeout | Some t \<Rightarrow> t)
      in \<lparr> self_browser = False,
           self_retry = dict_get (cfg_keys cfg) ''retry'' 3,
           self_timeouts = map (\<lambda>kv. (fst kv,
                         dict_get (cfg_keys cfg) (fst kv) (dict_get timeout (fst kv) (snd kv))))
                       timeout,
           self_file_name = None,
           attempted = [],
           slept = [],
           clog = [] \<rparr>)"

text \<open>The backoff of the retry loop: \<open>min(5 ** count, 30)\<close> seconds of wait, and
  every timeout of the table set to \<open>min(timeout * 2, 300)\<close>.\<close>

definition wait_time :: "int \<Rightarrow> int" where
  "wait_time count = min (5 ^ nat count) 30"

definition escalate_timeout :: "int \<Rightarrow> int" where
  "escalate_timeout t = min (t * 2) 300"

text \<open>
  What the remote service and the browser do in one attempt: whether the browser
  starts, the page loads, \<open>upload_file\<close>, \<open>start_compression\<close> and
  \<open>download_compressed_file\<close> return \<open>True\<close> (each of them catches its own
  time-outs and missing elements and returns \<open>False\<close>), whether \<open>quit\<close> returns, and
  the tag and size of the artifact that a successful download copies into the output
  directory.
\<close>

record session_script =
  init_browser_ok :: bool
  get_ok :: bool
  upload_ok :: bool
  start_ok :: bool
  download_ok :: bool
  quit_ok :: bool
  artifact :: "id3_load \<times> nat option"

definition copy2 :: "world \<Rightarrow> path \<Rightarrow> string \<Rightarrow> id3_load \<times> nat option \<Rightarrow> world" where
  "copy2 w dir name a =
     w\<lparr> entries := (if (dir, name) \<in> set (entries w) then entries w
                     else entries w @ [(dir, name)]),
        id3_of := (id3_of w)(os_path_join dir name := fst a),
        size_of := (size_of w)(os_path_join dir name := snd a) \<rparr>"

text \<open>The body of the \<open>try\<close> of one attempt, up to \<open>return True\<close>.\<close>

definition run_session ::
  "session_script \<Rightarrow> path \<Rightarrow> string \<Rightarrow> compressor \<Rightarrow> world \<Rightarrow> (exn + unit) \<times> compressor \<times> world" where
  "run_session sc output_path name c w =
     (if \<not> self_browser c \<and> \<not> init_browser_ok sc then (Inl WebDriverException, c, w)
      else let c1 = c\<lparr>self_browser := True\<rparr> in
        if \<not> get_ok sc then (Inl WebDriverException, c1, w)
        else if \<not> upload_ok sc then (Inl (StageFailed ''upload''), c1, w)
        else if \<not> start_ok sc then (Inl (StageFailed ''compress''), c1, w)
        else if \<not> download_ok sc then (Inl (StageFailed ''download''), c1, w)
        else (Inr (), c1, copy2 w output_path name (artifact sc)))"

text \<open>An attempt started without a browser succeeds when the browser starts, the page
  loads and the three stages return \<open>True\<close>.\<close>

definition session_succeeds :: "session_script \<Rightarrow> bool" where
  "session_succeeds sc =
     (init_browser_ok sc \<and> get_ok sc \<and> upload_ok sc \<and> start_ok sc \<and> download_ok sc)"

text \<open>The \<open>except\<close> clause: wait, then escalate every timeout of the table.\<close>

definition on_failure :: "int \<Rightarrow> compressor \<Rightarrow> compressor" where
  "on_failure count c =
     c\<lparr> slept := slept c @ [wait_time count],
        self_timeouts := map (\<lambda>kv. (fst kv, escalate_timeout (snd kv))) (self_timeouts c),
        clog := clog c @ [(INFO, ''waiting before the next retry'')] \<rparr>"

text \<open>The \<open>finally\<close> clause: \<open>quit\<close> is itself guarded (it fails when no browser was
  started or when the driver raises), then the browser is dropped.\<close>

definition finally_quit :: "session_script \<Rightarrow> compressor \<Rightarrow> compressor" where
  "finally_quit sc c =
     c\<lparr> self_browser := False,
        clog := clog c @ (if self_browser c \<and> quit_ok sc then []
                          else [(DEBUG, ''closing the browser failed'')]) \<rparr>"

text \<open>The loop \<open>for count in range(1, retry + 1)\<close>; the script of an attempt may
  depend on the attempt number and on the timeouts then in force.\<close>

fun compress_loop ::
  "(int \<Rightarrow> (string \<times> int) list \<Rightarrow> session_script) \<Rightarrow> path \<Rightarrow> string \<Rightarrow> int list
     \<Rightarrow> compressor \<Rightarrow> world \<Rightarrow> bool \<times> compressor \<times> world" where
  "compress_loop env output_path name [] c w = (False, c, w)"
| "compress_loop env output_path name (count # counts) c w =
     (let sc = env count (self_timeouts c) in
      case run_session sc output_path name (c\<lparr>attempted := attempted c @ [count]\<rparr>) w of
        (Inr u, c1, w1) \<Rightarrow> (True, finally_quit sc c1, w1)
      | (Inl e, c1, w1) \<Rightarrow>
          compress_loop env output_path name counts (finally_quit sc (on_failure count c1)) w1)"

definition compress ::
  "(int \<Rightarrow> (string \<times> int) list \<Rightarrow> session_script) \<Rightarrow> path \<Rightarrow> path \<Rightarrow> int option
     \<Rightarrow> compressor \<Rightarrow> world \<Rightarrow> bool \<times> compressor \<times> world" where
  "compress env input_path output_path retry_arg c w =
     (if \<not> isfile w input_path
      then (False, c\<lparr>clog := clog c @ [(ERROR, ''input file path invalid'')]\<rparr>, w)
      else if \<not> isdir w output_path
      then (False, c\<lparr>clog := clog c @ [(ERROR, ''output directory path invalid'')]\<rparr>, w)
      else
        let r = (case retry_arg of None \<Rightarrow> self_retry c | Some r \<Rightarrow> r);
            name = basename input_path;
            c0 = c\<lparr>self_file_name := Some name,
                   clog := clog c @ [(INFO, ''start compressing'')]\<rparr>
        in case compress_loop env output_path name [1..r] c0 w of
             (True, c1, w1) \<Rightarrow> (True, c1, w1)
           | (False, c1, w1) \<Rightarrow>
               (False, c1\<lparr>clog := clog c1 @ [(ERROR, ''too many retries, skipped'')]\<rparr>, w1))"

section \<open>The compression pool (ConcurrentTasks.py)\<close>

text \<open>
  The environment of a pool run: whether constructing an \<open>AudioCompressor\<close> returns
  (it creates a temporary directory), for the orchestrator and for the task of each
  file, and the session scripts of each input file.
\<close>

record compression_env =
  pool_compressor_ok :: bool
  task_compressor_ok :: "string \<Rightarrow> bool"
  sessions :: "path \<Rightarrow> int \<Rightarrow> (string \<times> int) list \<Rightarrow> session_script"

text \<open>\<open>compress_task\<close>: the compressor is constructed outside the \<open>try\<close>; inside it,
  the result of \<open>compress\<close> is returned, and any exception would be turned into
  \<open>False\<close>.\<close>

definition compress_task ::
  "compression_env \<Rightarrow> string \<Rightarrow> path \<Rightarrow> path \<Rightarrow> config \<Rightarrow> world \<Rightarrow> (exn + bool) \<times> world" where
  "compress_task env file input_path output_path cfg w =
     (if \<not> task_compressor_ok env file then (Inl OSError, w)
      else case compress (sessions env (os_path_join input_path file))
                  (os_path_join input_path file) output_path None (AudioCompressor cfg) w of
             (result, c, w1) \<Rightarrow> (Inr result, w1))"

text \<open>The submission loop over \<open>os.listdir(input_path)\<close>: the files submitted so far,
  and the exception that ended the loop, if any.\<close>

fun submit_loop ::
  "world \<Rightarrow> string set \<Rightarrow> path \<Rightarrow> string list \<Rightarrow> string list \<Rightarrow> string list \<times> exn option" where
  "submit_loop w existing_ids input_path [] futures = (futures, None)"
| "submit_loop w existing_ids input_path (file # files) futures =
     (case snd (get_file_identifier w (os_path_join input_path file)) of
        Inl e \<Rightarrow> (futures, Some e)
      | Inr file_id \<Rightarrow>
          if file_id \<in> existing_ids
          then submit_loop w existing_ids input_path files futures
          else submit_loop w existing_ids input_path files (futures @ [file]))"

text \<open>The submitted tasks, run to completion one after the other (one schedule of
  the three workers; the tasks read the input directory and write the output
  directory only).\<close>

fun run_tasks ::
  "compression_env \<Rightarrow> path \<Rightarrow> path \<Rightarrow> config \<Rightarrow> string list \<Rightarrow> world
     \<Rightarrow> (exn + bool) list \<times> world" where
  "run_tasks env input_path output_path cfg [] w = ([], w)"
| "run_tasks env input_path output_path cfg (file # files) w =
     (case compress_task env file input_path output_path cfg w of
        (r, w1) \<Rightarrow>
          (case run_tasks env input_path output_path cfg files w1 of
             (rs, w2) \<Rightarrow> (r # rs, w2)))"

text \<open>The collection loop over the futures, here in submission order (the count does
  not depend on the order in which the tasks complete): \<open>future.result()\<close> re-raises
  the exception of a task; its return value is not looked at.\<close>

fun collect :: "(exn + 'a) list \<Rightarrow> nat \<Rightarrow> nat" where
  "collect [] failed = failed"
| "collect (Inl e # rs) failed = collect rs (failed + 1)"
| "collect (Inr v # rs) failed = collect rs failed"

record ('a, 'r) pool_run =
  submitted :: "'a list"
  outcomes :: "(exn + 'r) list"
  failed_count :: nat
  returned :: "exn + bool"
  world_after :: world

definition concurrent_compression ::
  "compression_env \<Rightarrow> path \<Rightarrow> path \<Rightarrow> config \<Rightarrow> world \<Rightarrow> (string, bool) pool_run" where
  "concurrent_compression env input_path output_path cfg w =
     (if \<not> isdir w input_path
      then \<lparr> submitted = [], outcomes = [], failed_count = 0,
             returned = Inr False, world_after = w \<rparr>
      else if \<not> isdir w output_path
      then \<lparr> submitted = [], outcomes = [], failed_count = 0,
             returned = Inr False, world_after = w \<rparr>
      else if \<not> pool_compressor_ok env
      then \<lparr> submitted = [], outcomes = [], failed_count = 0,
             returned = Inl OSError, world_after = w \<rparr>
      else
        let existing_ids = get_existing_identifiers w output_path in
        case submit_loop w existing_ids input_path (listdir w input_path) [] of
          (futures, err) \<Rightarrow>
            (case run_tasks env input_path output_path cfg futures w of
               (results, w1) \<Rightarrow>
                 (case err of
                    Some e \<Rightarrow>
                      \<lparr> submitted = futures, outcomes = results, failed_count = 0,
                        returned = Inl e, world_after = w1 \<rparr>
                  | None \<Rightarrow>
                      \<lparr> submitted = futures, outcomes = results,
                        failed_count = collect results 0,
                        returned = Inr (collect results 0 = 0), world_after = w1 \<rparr>)))"

section \<open>The download step (NetworkOperations.py)\<close>

text \<open>What \<open>subprocess.run\<close> does: it returns with a return code, or raises
  \<open>TimeoutExpired\<close>, or raises something else.\<close>

datatype proc_result = Returncode int | ProcTimeout | ProcRaises

text \<open>The backoff of the download loop: \<open>timeout += min(3 ** count, 10)\<close> and
  \<open>waiting_time = min(2 ** count, 5)\<close>.\<close>

definition next_timeout :: "int \<Rightarrow> int \<Rightarrow> int" where
  "next_timeout timeout count = timeout + min (3 ^ nat count) 10"

definition waiting_time :: "int \<Rightarrow> int" where
  "waiting_time count = min (2 ^ nat count) 5"

record download_trace =
  dl_attempts :: "(int \<times> int) list"
  dl_slept :: "int list"
  dl_log :: log

definition write_files :: "world \<Rightarrow> path \<Rightarrow> string list \<Rightarrow> world" where
  "write_files w dir names =
     w\<lparr>entries := entries w @ filter (\<lambda>e. e \<notin> set (entries w)) (map (Pair dir) names)\<rparr>"

text \<open>The loop \<open>for count in range(1, retry + 1)\<close>. The oracle gives, for an attempt
  number and the timeout in force, the result of you-get and the files it leaves in
  the output directory. A raising \<open>subprocess.run\<close> is caught and retried like a
  non-zero return code.\<close>

fun download_loop ::
  "(int \<Rightarrow> int \<Rightarrow> proc_result \<times> string list) \<Rightarrow> path \<Rightarrow> int list \<Rightarrow> int
     \<Rightarrow> download_trace \<Rightarrow> world \<Rightarrow> bool \<times> download_trace \<times> world" where
  "download_loop you_get output_path [] timeout tr w = (False, tr, w)"
| "download_loop you_get output_path (count # counts) timeout tr w =
     (let w1 = write_files w output_path (snd (you_get count timeout));
          tr1 = tr\<lparr>dl_attempts := dl_attempts tr @ [(count, timeout)]\<rparr>
      in if fst (you_get count timeout) = Returncode 0
         then (True, tr1\<lparr>dl_log := dl_log tr1 @ [(DEBUG, ''video downloaded'')]\<rparr>, w1)
         else download_loop you_get output_path counts (next_timeout timeout count)
                (tr1\<lparr>dl_slept := dl_slept tr1 @ [waiting_time count],
                     dl_log := dl_log tr1 @ [(ERROR, ''download failed, waiting to retry'')]\<rparr>) w1)"

definition download_video ::
  "(int \<Rightarrow> int \<Rightarrow> proc_result \<times> string list) \<Rightarrow> path \<Rightarrow> int \<Rightarrow> int \<Rightarrow> world
     \<Rightarrow> download_trace \<times> world" where
  "download_video you_get output_path retry timeout w =
     (if \<not> isdir w output_path
      then (\<lparr>dl_attempts = [], dl_slept = [],
              dl_log = [(ERROR, ''video output path invalid'')]\<rparr>, w)
      else
        let ok = (30 \<le> timeout \<and> timeout \<le> 120);
            tr0 = \<lparr>dl_attempts = [], dl_slept = [],
                   dl_log = (if ok then [] else [(ERROR, ''invalid timeout, reset to 60'')])\<rparr>
        in case download_loop you_get output_path [1..retry] (if ok then timeout else 60) tr0 w of
             (True, tr, w1) \<Rightarrow> (tr, w1)
           | (False, tr, w1) \<Rightarrow>
               (tr\<lparr>dl_log := dl_log tr @ [(ERROR, ''too many retries, download skipped'')]\<rparr>, w1))"

section \<open>The conversion step (DataProcessing.py)\<close>

definition lower :: "string \<Rightarrow> string" where
  "lower s =
     map (\<lambda>c. if 65 \<le> (of_char c :: nat) \<and> (of_char c :: nat) \<le> 90
               then char_of ((of_char c :: nat) + 32) else c) s"

definition lstrip_dots :: "string \<Rightarrow> string" where
  "lstrip_dots s = dropWhile (\<lambda>c. c = CHR ''.'') s"

definition os_remove :: "world \<Rightarrow> path \<Rightarrow> string \<Rightarrow> exn + world" where
  "os_remove w dir name =
     (if (dir, name) \<in> set (entries w)
      then Inr (w\<lparr>entries := filter (\<lambda>e. e \<noteq> (dir, name)) (entries w)\<rparr>)
      else Inl FileNotFoundError)"

text \<open>The ffmpeg oracle: the result of each attempt on each file, and the tag and size
  of the audio file a successful run writes.\<close>

record ffmpeg_env =
  ffmpeg :: "string \<Rightarrow> int \<Rightarrow> proc_result"
  encoded :: "string \<Rightarrow> id3_load \<times> nat option"

text \<open>The retry loop on one file. \<open>subprocess.run\<close> is not guarded here: when it
  raises, the exception leaves the function.\<close>

fun convert_loop :: "(int \<Rightarrow> proc_result) \<Rightarrow> int list \<Rightarrow> exn + bool" where
  "convert_loop run [] = Inr False"
| "convert_loop run (count # counts) =
     (case run count of
        Returncode rc \<Rightarrow> if rc = 0 then Inr True else convert_loop run counts
      | ProcTimeout \<Rightarrow> Inl TimeoutExpired
      | ProcRaises \<Rightarrow> Inl OSError)"

text \<open>The loop over the listed files: the first successful conversion removes its
  source and returns; a file whose retries are exhausted is removed and the loop goes
  on.\<close>

fun processing_loop ::
  "ffmpeg_env \<Rightarrow> path \<Rightarrow> path \<Rightarrow> string \<Rightarrow> int \<Rightarrow> string list \<Rightarrow> world \<Rightarrow> (exn + unit) \<times> world" where
  "processing_loop env input_path output_path fmt retry [] w = (Inr (), w)"
| "processing_loop env input_path output_path fmt retry (file # files) w =
     (case convert_loop (ffmpeg env file) [1..retry] of
        Inl e \<Rightarrow> (Inl e, w)
      | Inr True \<Rightarrow>
          (let w1 = copy2 w output_path (splitext_root file @ fmt) (encoded env file)
           in case os_remove w1 input_path file of
                Inl e \<Rightarrow> (Inl e, w1)
              | Inr w2 \<Rightarrow> (Inr (), w2))
      | Inr False \<Rightarrow>
          (case os_remove w input_path file of
             Inl e \<Rightarrow> (Inl e, w)
           | Inr w1 \<Rightarrow> processing_loop env input_path output_path fmt retry files w1))"

definition download_processing ::
  "ffmpeg_env \<Rightarrow> path \<Rightarrow> path \<Rightarrow> int \<Rightarrow> string \<Rightarrow> world \<Rightarrow> (exn + unit) \<times> world" where
  "download_processing env input_path output_path retry audio_format w =
     (let fmt = ''.'' @ lstrip_dots (lower audio_format) in
      if \<not> isdir w input_path then (Inr (), w)
      else if \<not> isdir w output_path then (Inr (), w)
      else processing_loop env input_path output_path fmt
             (if 1 \<le> retry \<and> retry \<le> 5 then retry else 3) (listdir w input_path) w)"

section \<open>The tagging step (AudioTrackProcessing.py)\<close>

definition DEFAULT_ENCODER :: string where
  "DEFAULT_ENCODER = ''YKDX''"

definition DEFAULT_PUBLISHER :: string where
  "DEFAULT_PUBLISHER = ''YKDX''"

text \<open>The two defaults below end, respectively begin, with characters outside ASCII;
  they are given as their UTF-8 bytes.\<close>

definition DEFAULT_ARTIST :: string where
  "DEFAULT_ARTIST = ''EOZT-YKDX'' @ [CHR 0xE5, CHR 0x87, CHR 0xBA, CHR 0xE5, CHR 0x93, CHR 0x81]"

definition DEFAULT_COPYRIGHT :: string where
  "DEFAULT_COPYRIGHT = [CHR 0xC2, CHR 0xA9] @ ''EOZT 2021-2025''"

definition DEFAULT_AUTHOR_URL :: string where
  "DEFAULT_AUTHOR_URL = ''https://github.com/EOZT-YKDX''"

text \<open>
  What the cover path answers to \<open>filetype.guess_mime\<close>, to \<open>filetype.is_image\<close> and
  to \<open>open(...).read()\<close>; whether \<open>save\<close> succeeds on an audio file; the current year.
\<close>

record cover_file =
  guess_mime :: "exn + string option"
  is_image :: "exn + bool"
  read_bytes :: "exn + string"

record tagging_env =
  cover_at :: "path \<Rightarrow> cover_file"
  save_ok :: "path \<Rightarrow> bool"
  year_now :: string

text \<open>The two \<open>except\<close> clauses of the cover block: both log an error and return.\<close>

definition cover_handler :: "exn \<Rightarrow> level \<times> string" where
  "cover_handler e =
     (if e = FileNotFoundError then (ERROR, ''cover file path invalid'')
      else (ERROR, ''cover file read failed''))"

text \<open>The cover block: the MIME type and the bytes of the cover, or the log entry with
  which the function returns.\<close>

definition read_cover :: "cover_file \<Rightarrow> (level \<times> string) + (string option \<times> string)" where
  "read_cover c =
     (case guess_mime c of
        Inl e \<Rightarrow> Inl (cover_handler e)
      | Inr covers_type \<Rightarrow>
          (case is_image c of
             Inl e \<Rightarrow> Inl (cover_handler e)
           | Inr False \<Rightarrow> Inl (ERROR, ''cover file type invalid'')
           | Inr True \<Rightarrow>
               (case read_bytes c of
                  Inl e \<Rightarrow> Inl (cover_handler e)
                | Inr cover_data \<Rightarrow> Inr (covers_type, cover_data))))"

text \<open>The cover is usable when none of the three calls raises and \<open>is_image\<close>
  answers \<open>True\<close>; otherwise it is not a valid image or cannot be read.\<close>

definition cover_usable :: "cover_file \<Rightarrow> bool" where
  "cover_usable c = (\<not> isl (guess_mime c) \<and> is_image c = Inr True \<and> \<not> isl (read_bytes c))"

definition cleared_tags :: "string list" where
  "cleared_tags = [''TDRC'', ''TPE1'', ''TENC'', ''TPUB'', ''TCOP'', ''APIC'', ''WOAR'']"

text \<open>The tag after the old frames are deleted, the source name is set when no TIT3
  frame is there, and the seven frames are added, in the order of the code.\<close>

definition retag ::
  "string \<Rightarrow> string \<Rightarrow> (string \<times> string) list \<Rightarrow> string option \<Rightarrow> string \<Rightarrow> tags \<Rightarrow> tags" where
  "retag year name track_info covers_type cover_data audio_file =
     (let t0 = foldl delall audio_file cleared_tags;
          t1 = (if getall t0 ''TIT3'' = []
                then add t0 (''TIT3'', TextFrame (splitext_root name)) else t0);
          t2 = add t1 (''TDRC'', TextFrame year);
          t3 = add t2 (''TPE1'', TextFrame (dict_get track_info ''Artist'' DEFAULT_ARTIST));
          t4 = add t3 (''TENC'', TextFrame (dict_get track_info ''Encoder'' DEFAULT_ENCODER));
          t5 = add t4 (''APIC:Cover'',
                 PictureFrame (case covers_type of None \<Rightarrow> [] | Some m \<Rightarrow> m) cover_data);
          t6 = add t5 (''TPUB'', TextFrame (dict_get track_info ''Publisher'' DEFAULT_PUBLISHER));
          t7 = add t6 (''WOAR:'' @ dict_get track_info ''Author_URL'' DEFAULT_AUTHOR_URL,
                 UrlFrame (dict_get track_info ''Author_URL'' DEFAULT_AUTHOR_URL))
      in add t7 (''TCOP'', TextFrame (dict_get track_info ''Copyright'' DEFAULT_COPYRIGHT)))"

text \<open>\<open>audio_track_processing\<close>: the file system afterwards and the log of the call.
  Every call that can raise sits in a \<open>try\<close> whose handlers return, so the function
  has no exceptional result.\<close>

definition audio_track_processing ::
  "tagging_env \<Rightarrow> path \<Rightarrow> (string \<times> string) list \<Rightarrow> world \<Rightarrow> world \<times> log" where
  "audio_track_processing env input_file track_info w =
     (case ID3 w input_file of
        Inl e \<Rightarrow> (w, [(ERROR, ''audio file load failed'')])
      | Inr audio_file \<Rightarrow>
          (case read_cover (cover_at env (dict_get track_info ''Cover'' [])) of
             Inl entry \<Rightarrow> (w, [entry])
           | Inr (covers_type, cover_data) \<Rightarrow>
               if save_ok env input_file
               then (w\<lparr>id3_of := (id3_of w)(input_file :=
                          Tags (retag (year_now env) (basename input_file) track_info
                                  covers_type cover_data audio_file))\<rparr>,
                     [(INFO, ''track information processed'')])
               else (w, [(ERROR, ''saving the tag failed''),
                         (INFO, ''track information processed'')])))"

section \<open>The per-item pipeline (ConcurrentTasks.py)\<close>

text \<open>
  \<open>tempfile.TemporaryDirectory()\<close> makes a directory under the first candidate name
  that does not exist yet, and raises \<open>FileExistsError\<close> when it finds none; leaving
  the \<open>with\<close> block removes the directory and everything below it.
\<close>

definition path_exists :: "world \<Rightarrow> path \<Rightarrow> bool" where
  "path_exists w p = (isdir w p \<or> isfile w p)"

fun mkdtemp :: "path list \<Rightarrow> world \<Rightarrow> exn + (path \<times> world)" where
  "mkdtemp [] w = Inl FileExistsError"
| "mkdtemp (n # ns) w =
     (if path_exists w n then mkdtemp ns w
      else Inr (n, w\<lparr>directories := directories w @ [n]\<rparr>))"

definition under :: "path \<Rightarrow> path \<Rightarrow> bool" where
  "under p q = (q = p \<or> startswith q (p @ ''/''))"

definition cleanup :: "world \<Rightarrow> path \<Rightarrow> world" where
  "cleanup w p =
     w\<lparr> directories := filter (\<lambda>d. \<not> under p d) (directories w),
        entries := filter (\<lambda>e. \<not> under p (fst e)) (entries w) \<rparr>"

text \<open>The task configuration (a dictionary in which any of the five keys may be
  missing) and the collaborators of one item.\<close>

record item_config =
  cfg_video_name :: "string option"
  cfg_output_path :: "path option"
  cfg_download_url :: "string option"
  cfg_audio_format :: "string option"
  cfg_track_information :: "(string \<times> string) list option"

record item_env =
  temp_names :: "path list"
  you_get :: "int \<Rightarrow> int \<Rightarrow> proc_result \<times> string list"
  converter :: ffmpeg_env
  tagger :: tagging_env

record item_run =
  item_result :: "exn + unit"
  item_world :: world
  item_scratch :: "path option"
  item_download :: "download_trace option"
  item_log :: log

text \<open>The defaults with which the pipeline calls its steps: \<open>DEFAULT_RETRY\<close> and
  \<open>DEFAULT_DOWNLOAD_TIMEOUT\<close> of NetworkOperations.py, and the \<open>DEFAULT_RETRY\<close> of
  DataProcessing.py, here \<open>DEFAULT_CONVERSION_RETRY\<close>.\<close>

definition DEFAULT_RETRY :: int where
  "DEFAULT_RETRY = 2"

definition DEFAULT_DOWNLOAD_TIMEOUT :: int where
  "DEFAULT_DOWNLOAD_TIMEOUT = 60"

definition DEFAULT_CONVERSION_RETRY :: int where
  "DEFAULT_CONVERSION_RETRY = 3"

definition process_video_download :: "item_env \<Rightarrow> item_config \<Rightarrow> world \<Rightarrow> item_run" where
  "process_video_download env cfg w =
     (case (cfg_video_name cfg, cfg_output_path cfg, cfg_download_url cfg,
            cfg_audio_format cfg, cfg_track_information cfg) of
        (Some name, Some out, Some url, Some fmt, Some track_info) \<Rightarrow>
          (case mkdtemp (temp_names env) w of
             Inl e \<Rightarrow>
               \<lparr> item_result = Inl e, item_world = w, item_scratch = None,
                 item_download = None, item_log = [] \<rparr>
           | Inr (temp_dir, w0) \<Rightarrow>
               (case download_video (you_get env) temp_dir DEFAULT_RETRY
                       DEFAULT_DOWNLOAD_TIMEOUT w0 of
                  (tr, w1) \<Rightarrow>
                    (case download_processing (converter env) temp_dir out
                            DEFAULT_CONVERSION_RETRY fmt w1 of
                       (Inl e, w2) \<Rightarrow>
                         \<lparr> item_result = Inl e, item_world = cleanup w2 temp_dir,
                           item_scratch = Some temp_dir, item_download = Some tr,
                           item_log = dl_log tr \<rparr>
                     | (Inr u, w2) \<Rightarrow>
                         (case audio_track_processing (tagger env)
                                 (os_path_join out (name @ ''.'' @ fmt)) track_info w2 of
                            (w3, lg) \<Rightarrow>
                              \<lparr> item_result = Inr (), item_world = cleanup w3 temp_dir,
                                item_scratch = Some temp_dir, item_download = Some tr,
                                item_log = dl_log tr @ lg \<rparr>))))
      | _ \<Rightarrow>
          \<lparr> item_result = Inr (), item_world = w, item_scratch = None,
            item_download = None,
            item_log = [(ERROR, ''required data missing from the configuration'')] \<rparr>)"

section \<open>The acquisition pool (ConcurrentTasks.py)\<close>

record process_config =
  pc_url_list :: "string list option"
  pc_name_list :: "string list option"
  pc_output_path :: "path option"
  pc_audio_format :: "string option"
  pc_track_information :: "(string \<times> string) list option"

text \<open>The submitted pipelines, run to completion one after the other (one schedule of
  the workers).\<close>

fun run_downloads ::
  "(string \<Rightarrow> string \<Rightarrow> item_env) \<Rightarrow> path \<Rightarrow> string \<Rightarrow> (string \<times> string) list
     \<Rightarrow> (string \<times> string) list \<Rightarrow> world \<Rightarrow> (exn + unit) list \<times> world" where
  "run_downloads env out fmt track_info [] w = ([], w)"
| "run_downloads env out fmt track_info ((url, name) # items) w =
     (let r = process_video_download (env url name)
                \<lparr> cfg_video_name = Some name, cfg_output_path = Some out,
                  cfg_download_url = Some url, cfg_audio_format = Some fmt,
                  cfg_track_information = Some track_info \<rparr> w
      in case run_downloads env out fmt track_info items (item_world r) of
           (rs, w1) \<Rightarrow> (item_result r # rs, w1))"

definition rejected :: "world \<Rightarrow> string \<Rightarrow> ((string \<times> string), unit) pool_run \<times> log" where
  "rejected w msg =
     (\<lparr> submitted = [], outcomes = [], failed_count = 0,
        returned = Inr False, world_after = w \<rparr>, [(ERROR, msg)])"

definition concurrent_process ::
  "(string \<Rightarrow> string \<Rightarrow> item_env) \<Rightarrow> process_config \<Rightarrow> world
     \<Rightarrow> ((string \<times> string), unit) pool_run \<times> log" where
  "concurrent_process env cfg w =
     (case (pc_url_list cfg, pc_name_list cfg, pc_output_path cfg,
            pc_audio_format cfg, pc_track_information cfg) of
        (Some url_list, Some name_list, Some out, Some fmt, Some track_info) \<Rightarrow>
          if \<not> isdir w out then rejected w ''audio output directory invalid''
          else if length url_list \<noteq> length name_list
          then rejected w ''URL list and name list differ in length''
          else if url_list = [] \<or> name_list = []
          then rejected w ''URL list or name list is empty''
          else
            (case run_downloads env out fmt track_info (zip url_list name_list) w of
               (results, w1) \<Rightarrow>
                 (\<lparr> submitted = zip url_list name_list, outcomes = results,
                    failed_count = collect results 0,
                    returned = Inr (collect results 0 = 0), world_after = w1 \<rparr>, []))
      | _ \<Rightarrow> rejected w ''required data missing from the configuration'')"

text \<open>The entry point (ProgramEntrance.py) runs the acquisition pool only when the
  classified catalog data, a dictionary from item identifiers to titles, is not
  empty.\<close>

definition main_acquisition ::
  "(string \<Rightarrow> string \<Rightarrow> item_env) \<Rightarrow> (string \<times> string) list \<Rightarrow> path \<Rightarrow> string
     \<Rightarrow> (string \<times> string) list \<Rightarrow> world
     \<Rightarrow> (((string \<times> string), unit) pool_run \<times> log) option" where
  "main_acquisition env process_data music_path fmt track_label w =
     (if process_data = [] then None
      else Some (concurrent_process env
                   \<lparr> pc_url_list = Some (map fst process_data),
                     pc_name_list = Some (map snd process_data),
                     pc_output_path = Some music_path,
                     pc_audio_format = Some fmt,
                     pc_track_information = Some track_label \<rparr> w))"

section \<open>Concrete inputs\<close>

text \<open>A file system with no directory and no file: every path is missing.\<close>

definition nowhere :: world where
  "nowhere = \<lparr> directories = [], entries = [],
               id3_of = (\<lambda>p. Unreadable), size_of = (\<lambda>p. None) \<rparr>"

text \<open>
  An input directory with three files and an output directory with one: \<open>a.mp3\<close> and
  \<open>b.mp3\<close> carry the same source name, \<open>c.mp3\<close> carries the source name of the file
  already compressed, and the compressed file \<open>d.mp3\<close> has no tag header.
\<close>

definition library :: world where
  "library =
     \<lparr> directories = [''music'', ''compressed''],
       entries = [(''music'', ''a.mp3''), (''music'', ''b.mp3''), (''music'', ''c.mp3''),
                  (''compressed'', ''c.mp3''), (''compressed'', ''d.mp3'')],
       id3_of = (\<lambda>p. if p = ''music/a.mp3'' then Tags [(''TIT3'', TextFrame ''song'')]
                      else if p = ''music/b.mp3'' then Tags [(''TIT3'', TextFrame ''song'')]
                      else if p = ''music/c.mp3'' then Tags [(''TIT3'', TextFrame ''tune'')]
                      else if p = ''compressed/c.mp3'' then Tags [(''TIT3'', TextFrame ''tune'')]
                      else if p = ''compressed/d.mp3'' then NoHeader
                      else Unreadable),
       size_of = (\<lambda>p. if p = ''compressed/d.mp3'' then Some 7
                       else if p = ''music/a.mp3'' then Some 9
                       else if p = ''music/b.mp3'' then Some 9
                       else if p = ''music/c.mp3'' then Some 8
                       else if p = ''compressed/c.mp3'' then Some 5
                       else None) \<rparr>"

text \<open>A remote service on which the result of the compression never appears: every
  attempt passes the upload and fails in \<open>start_compression\<close>.\<close>

definition stalled :: session_script where
  "stalled = \<lparr> init_browser_ok = True, get_ok = True, upload_ok = True, start_ok = False,
               download_ok = False, quit_ok = True, artifact = (Unreadable, None) \<rparr>"

definition stalled_service :: compression_env where
  "stalled_service =
     \<lparr> pool_compressor_ok = True, task_compressor_ok = (\<lambda>file. True),
       sessions = (\<lambda>p count ts. stalled) \<rparr>"

definition plain_config :: config where
  "plain_config = \<lparr> cfg_keys = [], cfg_timeout_period = None \<rparr>"

text \<open>A tagging environment without a cover file, and one with a valid cover.\<close>

definition no_cover :: tagging_env where
  "no_cover =
     \<lparr> cover_at = (\<lambda>p. \<lparr> guess_mime = Inl FileNotFoundError, is_image = Inl FileNotFoundError,
                          read_bytes = Inl FileNotFoundError \<rparr>),
       save_ok = (\<lambda>p. True), year_now = ''2025'' \<rparr>"

definition with_cover :: tagging_env where
  "with_cover =
     \<lparr> cover_at = (\<lambda>p. \<lparr> guess_mime = Inr (Some ''image/png''), is_image = Inr True,
                          read_bytes = Inr ''PNG'' \<rparr>),
       save_ok = (\<lambda>p. True), year_now = ''2025'' \<rparr>"

text \<open>An item whose download always fails, and one whose download and conversion
  succeed at once.\<close>

definition offline :: item_env where
  "offline =
     \<lparr> temp_names = [''music'', ''tmp0''],
       you_get = (\<lambda>count timeout. (Returncode 1, [''song.mp4.download''])),
       converter = \<lparr> ffmpeg = (\<lambda>f count. Returncode 1), encoded = (\<lambda>f. (NoHeader, Some 0)) \<rparr>,
       tagger = no_cover \<rparr>"

definition online :: item_env where
  "online =
     \<lparr> temp_names = [''tmp0''],
       you_get = (\<lambda>count timeout. (Returncode 0, [''song.mp4''])),
       converter = \<lparr> ffmpeg = (\<lambda>f count. Returncode 0), encoded = (\<lambda>f. (Tags [], Some 100)) \<rparr>,
       tagger = with_cover \<rparr>"

definition song :: item_config where
  "song = \<lparr> cfg_video_name = Some ''song'', cfg_output_path = Some ''music'',
            cfg_download_url = Some ''BV16MT1zFEQL'', cfg_audio_format = Some ''mp3'',
            cfg_track_information = Some [] \<rparr>"

definition one_song :: process_config where
  "one_song = \<lparr> pc_url_list = Some [''BV16MT1zFEQL''], pc_name_list = Some [''song''],
                pc_output_path = Some ''music'', pc_audio_format = Some ''mp3'',
                pc_track_information = Some [] \<rparr>"

definition empty_catalog :: process_config where
  "empty_catalog = \<lparr> pc_url_list = Some [], pc_name_list = Some [],
                     pc_output_path = Some ''music'', pc_audio_format = Some ''mp3'',
                     pc_track_information = Some [] \<rparr>"

text \<open>A music directory with one converted file that carries an album frame and no
  source name yet.\<close>

definition fresh_download :: world where
  "fresh_download =
     \<lparr> directories = [''music''],
       entries = [(''music'', ''song.mp3'')],
       id3_of = (\<lambda>p. if p = ''music/song.mp3'' then Tags [(''TALB'', TextFrame ''album'')]
                      else Unreadable),
       size_of = (\<lambda>p. if p = ''music/song.mp3'' then Some 100 else None) \<rparr>"

section \<open>Identifiers and the submission loop\<close>

lemma existing_loop_member:
  "i \<in> existing_loop w d files ids \<longleftrightarrow>
     i \<in> ids \<or> (\<exists>f \<in> set files. snd (get_file_identifier w (os_path_join d f)) = Inr i)"
proof (induction files arbitrary: ids)
  case Nil
  then show ?case by simp
next
  case (Cons x files)
  show ?case
  proof (cases "snd (get_file_identifier w (os_path_join d x))")
    case (Inl e)
    then show ?thesis using Cons.IH[of ids] by auto
  next
    case (Inr j)
    then show ?thesis using Cons.IH[of "insert j ids"] by auto
  qed
qed

lemma existing_identifiers_member:
  "i \<in> get_existing_identifiers w d \<longleftrightarrow>
     (\<exists>f \<in> set (listdir w d). snd (get_file_identifier w (os_path_join d f)) = Inr i)"
  by (simp add: get_existing_identifiers_def existing_loop_member)

lemma submit_loop_member:
  "f \<in> set (fst (submit_loop w ids inp files futures)) \<Longrightarrow>
     f \<in> set futures \<or>
     (f \<in> set files \<and> (\<exists>i. snd (get_file_identifier w (os_path_join inp f)) = Inr i \<and> i \<notin> ids))"
proof (induction files arbitrary: futures)
  case Nil
  then show ?case by simp
next
  case (Cons x files)
  show ?case
  proof (cases "snd (get_file_identifier w (os_path_join inp x))")
    case (Inl e)
    then show ?thesis using Cons.prems by simp
  next
    case (Inr j)
    show ?thesis
    proof (cases "j \<in> ids")
      case True
      then show ?thesis using Inr Cons.prems Cons.IH[of futures] by auto
    next
      case False
      then show ?thesis using Inr Cons.prems Cons.IH[of "futures @ [x]"] by auto
    qed
  qed
qed

lemma submit_loop_total:
  "\<forall>f \<in> set files. \<exists>i. snd (get_file_identifier w (os_path_join inp f)) = Inr i \<Longrightarrow>
   submit_loop w ids inp files futures =
     (futures @ filter (\<lambda>f. case snd (get_file_identifier w (os_path_join inp f)) of
                              Inl e \<Rightarrow> False | Inr i \<Rightarrow> i \<notin> ids) files, None)"
  by (induction files arbitrary: futures) (auto split: sum.splits)

lemma submitted_compression:
  "submitted (concurrent_compression env inp out cfg w) =
     (if isdir w inp \<and> isdir w out \<and> pool_compressor_ok env
      then fst (submit_loop w (get_existing_identifiers w out) inp (listdir w inp) [])
      else [])"
  by (simp add: concurrent_compression_def Let_def split: prod.splits option.splits)

lemma library_identifiers:
  "snd (get_file_identifier library (os_path_join ''music'' ''a.mp3'')) = Inr ''song''"
  "snd (get_file_identifier library (os_path_join ''music'' ''b.mp3'')) = Inr ''song''"
  "snd (get_file_identifier library (os_path_join ''music'' ''c.mp3'')) = Inr ''tune''"
  "snd (get_file_identifier library (os_path_join ''compressed'' ''c.mp3'')) = Inr ''tune''"
  by code_simp+

lemma library_listing:
  "listdir library ''music'' = [''a.mp3'', ''b.mp3'', ''c.mp3'']"
  "listdir library ''compressed'' = [''c.mp3'', ''d.mp3'']"
  "isdir library ''music''" "isdir library ''compressed''"
  by code_simp+

text \<open>
  C6. A candidate input file whose identifier equals the identifier of a file that is
  in the output directory at the start of the run is never submitted to the
  compression pool, whatever the configuration and the environment.
\<close>

theorem existing_identifier_never_submitted:
  assumes "snd (get_file_identifier w (os_path_join input_path candidate)) = Inr i"
      and "present \<in> set (listdir w output_path)"
      and "snd (get_file_identifier w (os_path_join output_path present)) = Inr i"
    shows "candidate \<notin> set (submitted (concurrent_compression env input_path output_path cfg w))"
proof
  assume sub: "candidate \<in> set (submitted (concurrent_compression env input_path output_path cfg w))"
  have ex: "i \<in> get_existing_identifiers w output_path"
    using assms(2,3) by (auto simp: existing_identifiers_member)
  from sub have "candidate \<in> set (fst (submit_loop w (get_existing_identifiers w output_path)
                     input_path (listdir w input_path) []))"
    by (simp add: submitted_compression split: if_splits)
  from submit_loop_member[OF this] obtain j where
    "snd (get_file_identifier w (os_path_join input_path candidate)) = Inr j"
    "j \<notin> get_existing_identifiers w output_path" by auto
  with assms(1) ex show False by simp
qed

theorem existing_identifier_never_submitted_witness:
  "snd (get_file_identifier library (os_path_join ''music'' ''c.mp3'')) = Inr ''tune''
   \<and> ''c.mp3'' \<in> set (listdir library ''compressed'')
   \<and> snd (get_file_identifier library (os_path_join ''compressed'' ''c.mp3'')) = Inr ''tune''
   \<and> ''c.mp3'' \<notin> set (submitted
        (concurrent_compression stalled_service ''music'' ''compressed'' plain_config library))"
proof -
  have h2: "''c.mp3'' \<in> set (listdir library ''compressed'')"
    by (simp add: library_listing)
  show ?thesis
    using existing_identifier_never_submitted
            [OF library_identifiers(3) h2 library_identifiers(4),
             of stalled_service plain_config]
          library_identifiers(3,4) h2
    by simp
qed

text \<open>
  C1 as stated fails: \<open>a.mp3\<close> and \<open>b.mp3\<close> have the same identifier, no output file
  has it, and one run submits both.
\<close>

theorem equal_identifiers_both_submitted:
  "snd (get_file_identifier library (os_path_join ''music'' ''a.mp3''))
     = snd (get_file_identifier library (os_path_join ''music'' ''b.mp3''))
   \<and> submitted (concurrent_compression stalled_service ''music'' ''compressed''
                  plain_config library) = [''a.mp3'', ''b.mp3'']"
  by code_simp

text \<open>
  C1, amended. The set of existing identifiers is computed once, from the files of the
  output directory whose identifier can be resolved. Every submitted file is a listed
  candidate whose identifier is not in that set; and when both directories are valid,
  the orchestrator's compressor is constructed and every candidate's identifier can be
  resolved, the submitted files are exactly the candidates whose identifier is not in
  the set, in listing order. Candidates are not compared with each other.
\<close>

theorem submitted_are_the_unrepresented:
  "get_existing_identifiers w output_path =
     {i. \<exists>f \<in> set (listdir w output_path).
            snd (get_file_identifier w (os_path_join output_path f)) = Inr i}
   \<and> (\<forall>f \<in> set (submitted (concurrent_compression env input_path output_path cfg w)).
        f \<in> set (listdir w input_path) \<and>
        (\<exists>i. snd (get_file_identifier w (os_path_join input_path f)) = Inr i
              \<and> i \<notin> get_existing_identifiers w output_path))
   \<and> (isdir w input_path \<and> isdir w output_path \<and> pool_compressor_ok env \<and>
      (\<forall>f \<in> set (listdir w input_path).
          \<exists>i. snd (get_file_identifier w (os_path_join input_path f)) = Inr i)
      \<longrightarrow> submitted (concurrent_compression env input_path output_path cfg w) =
            filter (\<lambda>f. case snd (get_file_identifier w (os_path_join input_path f)) of
                          Inl e \<Rightarrow> False
                        | Inr i \<Rightarrow> i \<notin> get_existing_identifiers w output_path)
                   (listdir w input_path))"
proof (intro conjI ballI impI)
  show "get_existing_identifiers w output_path =
     {i. \<exists>f \<in> set (listdir w output_path).
            snd (get_file_identifier w (os_path_join output_path f)) = Inr i}"
    by (auto simp: existing_identifiers_member)
next
  fix f
  assume "f \<in> set (submitted (concurrent_compression env input_path output_path cfg w))"
  then have "f \<in> set (fst (submit_loop w (get_existing_identifiers w output_path)
                     input_path (listdir w input_path) []))"
    by (simp add: submitted_compression split: if_splits)
  from submit_loop_member[OF this]
  show "f \<in> set (listdir w input_path)"
   and "\<exists>i. snd (get_file_identifier w (os_path_join input_path f)) = Inr i
              \<and> i \<notin> get_existing_identifiers w output_path"
    by auto
next
  assume a: "isdir w input_path \<and> isdir w output_path \<and> pool_compressor_ok env \<and>
      (\<forall>f \<in> set (listdir w input_path).
          \<exists>i. snd (get_file_identifier w (os_path_join input_path f)) = Inr i)"
  then have "\<forall>f \<in> set (listdir w input_path).
          \<exists>i. snd (get_file_identifier w (os_path_join input_path f)) = Inr i" by blast
  from submit_loop_total[OF this] a
  show "submitted (concurrent_compression env input_path output_path cfg w) =
            filter (\<lambda>f. case snd (get_file_identifier w (os_path_join input_path f)) of
                          Inl e \<Rightarrow> False
                        | Inr i \<Rightarrow> i \<notin> get_existing_identifiers w output_path)
                   (listdir w input_path)"
    by (simp add: submitted_compression)
qed

theorem submitted_are_the_unrepresented_witness:
  "isdir library ''music'' \<and> isdir library ''compressed'' \<and> pool_compressor_ok stalled_service
   \<and> listdir library ''music'' = [''a.mp3'', ''b.mp3'', ''c.mp3'']
   \<and> snd (get_file_identifier library (os_path_join ''music'' ''a.mp3'')) = Inr ''song''
   \<and> snd (get_file_identifier library (os_path_join ''music'' ''b.mp3'')) = Inr ''song''
   \<and> snd (get_file_identifier library (os_path_join ''music'' ''c.mp3'')) = Inr ''tune''
   \<and> submitted (concurrent_compression stalled_service ''music'' ''compressed''
                  plain_config library) =
       filter (\<lambda>f. case snd (get_file_identifier library (os_path_join ''music'' f)) of
                     Inl e \<Rightarrow> False
                   | Inr i \<Rightarrow> i \<notin> get_existing_identifiers library ''compressed'')
              (listdir library ''music'')"
proof -
  have h: "isdir library ''music'' \<and> isdir library ''compressed''
           \<and> pool_compressor_ok stalled_service
           \<and> (\<forall>f \<in> set (listdir library ''music'').
                 \<exists>i. snd (get_file_identifier library (os_path_join ''music'' f)) = Inr i)"
    by (simp add: library_listing library_identifiers stalled_service_def)
  have "submitted (concurrent_compression stalled_service ''music'' ''compressed''
                  plain_config library) =
       filter (\<lambda>f. case snd (get_file_identifier library (os_path_join ''music'' f)) of
                     Inl e \<Rightarrow> False
                   | Inr i \<Rightarrow> i \<notin> get_existing_identifiers library ''compressed'')
              (listdir library ''music'')"
    using h submitted_are_the_unrepresented
              [of library "''compressed''" stalled_service "''music''" plain_config]
    by blast
  then show ?thesis
    using h library_listing(1) library_identifiers(1,2,3) by blast
qed

section \<open>The identity resolver\<close>

text \<open>
  C4 as stated fails: for a path that does not exist, loading the tag fails, the
  handler logs the error, and the size fallback raises out of the handler.
\<close>

theorem identifier_of_missing_path_raises:
  "get_file_identifier nowhere ''missing.mp3'' =
     ([(ERROR, ''reading the file identifier failed'')], Inl OSError)"
  by code_simp

text \<open>
  C4, amended. When the tag of the file loads and holds a TIT3 frame, the identifier
  is the text of the first such frame and nothing is logged. Otherwise a warning or an
  error is logged, and the identifier is the byte length of the file as a decimal
  string when the size can be read; when it cannot, the fallback raises \<open>OSError\<close>.
\<close>

theorem identifier_is_TIT3_or_size:
  "(id3_of w p = Tags t \<and> getall t ''TIT3'' = f # fs
      \<longrightarrow> get_file_identifier w p = ([], Inr (frame_str f)))
   \<and> ((\<forall>t. id3_of w p = Tags t \<longrightarrow> getall t ''TIT3'' = []) \<and> size_of w p = Some n
      \<longrightarrow> snd (get_file_identifier w p) = Inr (str_nat n)
          \<and> (\<exists>l msg. fst (get_file_identifier w p) = [(l, msg)] \<and> (l = WARNING \<or> l = ERROR)))
   \<and> ((\<forall>t. id3_of w p = Tags t \<longrightarrow> getall t ''TIT3'' = []) \<and> size_of w p = None
      \<longrightarrow> snd (get_file_identifier w p) = Inl OSError
          \<and> (\<exists>l msg. fst (get_file_identifier w p) = [(l, msg)] \<and> (l = WARNING \<or> l = ERROR)))"
  by (cases "id3_of w p")
     (auto simp: get_file_identifier_def ID3_def first_TIT3_def size_fallback_def
                 os_path_getsize_def
           split: list.splits)

theorem identifier_is_TIT3_or_size_witness:
  "get_file_identifier library ''music/a.mp3'' = ([], Inr ''song'')
   \<and> snd (get_file_identifier library ''compressed/d.mp3'') = Inr (str_nat 7)
   \<and> snd (get_file_identifier nowhere ''missing.mp3'') = Inl OSError"
proof -
  have a: "id3_of library ''music/a.mp3'' = Tags [(''TIT3'', TextFrame ''song'')]
           \<and> getall [(''TIT3'', TextFrame ''song'')] ''TIT3'' = TextFrame ''song'' # []"
    by (simp add: library_def getall_def has_key_def)
  have d: "(\<forall>t. id3_of library ''compressed/d.mp3'' = Tags t \<longrightarrow> getall t ''TIT3'' = [])
           \<and> size_of library ''compressed/d.mp3'' = Some 7"
    by (simp add: library_def)
  have m: "(\<forall>t. id3_of nowhere ''missing.mp3'' = Tags t \<longrightarrow> getall t ''TIT3'' = [])
           \<and> size_of nowhere ''missing.mp3'' = None"
    by (simp add: nowhere_def)
  show ?thesis
    using a d m
      identifier_is_TIT3_or_size[of library "''music/a.mp3''"
         "[(''TIT3'', TextFrame ''song'')]" "TextFrame ''song''" "[]"]
      identifier_is_TIT3_or_size[of library "''compressed/d.mp3''" _ _ _ 7]
      identifier_is_TIT3_or_size[of nowhere "''missing.mp3''"]
    by simp
qed

section \<open>Backoff\<close>

lemma wait_time_mono: "wait_time count \<le> wait_time (count + 1)"
proof -
  have "(5::int) ^ nat count \<le> 5 ^ nat (count + 1)"
    by (rule power_increasing) auto
  then show ?thesis
    unfolding wait_time_def by (rule min.mono) simp
qed

lemma waiting_time_mono: "waiting_time count \<le> waiting_time (count + 1)"
proof -
  have "(2::int) ^ nat count \<le> 2 ^ nat (count + 1)"
    by (rule power_increasing) auto
  then show ?thesis
    unfolding waiting_time_def by (rule min.mono) simp
qed

lemma wait_time_le: "wait_time count \<le> 30"
  by (simp add: wait_time_def)

lemma waiting_time_le: "waiting_time count \<le> 5"
  by (simp add: waiting_time_def)

lemma next_timeout_gt: "timeout < next_timeout timeout count"
proof -
  have "(0::int) < 3 ^ nat count" by simp
  then show ?thesis by (simp add: next_timeout_def)
qed

text \<open>
  C2 as stated fails. A configured compression timeout above the cap is lowered by
  the escalation; and the download timeout after a retry depends on the attempt number
  as well as on the timeout, so it is not of the form \<open>min(t * growthFactor, capTimeout)\<close>
  (with the default timeout the third retry already yields 82).
\<close>

theorem escalation_differs_from_contract:
  "escalate_timeout 400 = 300
   \<and> next_timeout 60 1 = 63 \<and> next_timeout 60 2 = 69
   \<and> next_timeout (next_timeout (next_timeout 60 1) 2) 3 = 82"
  by (simp add: escalate_timeout_def next_timeout_def)

text \<open>
  C2, amended. Compression retries wait \<open>min(5^n, 30)\<close> seconds after attempt \<open>n\<close>
  and set every timeout \<open>t\<close> of the table to \<open>min(2 * t, 300)\<close>; download retries wait
  \<open>min(2^n, 5)\<close> seconds and add \<open>min(3^n, 10)\<close> to the timeout, without a cap.
  Both waits are non-decreasing in \<open>n\<close>, never exceed their cap and stay at the cap
  once they reach it. The escalated compression timeout never exceeds 300, does not
  decrease when \<open>0 \<le> t \<le> 300\<close>, and stays at 300 once there; the download timeout
  strictly increases with every retry.
\<close>

theorem retry_backoff:
  "wait_time (int n) = min (5 ^ n) 30
   \<and> slept (on_failure (int n) c) = slept c @ [min (5 ^ n) 30]
   \<and> escalate_timeout t = min (t * 2) 300
   \<and> self_timeouts (on_failure (int n) c)
       = map (\<lambda>kv. (fst kv, min (snd kv * 2) 300)) (self_timeouts c)
   \<and> waiting_time (int n) = min (2 ^ n) 5
   \<and> next_timeout t (int n) = t + min (3 ^ n) 10
   \<and> wait_time (int n) \<le> wait_time (int n + 1) \<and> wait_time (int n) \<le> 30
   \<and> (wait_time (int n) = 30 \<longrightarrow> wait_time (int n + 1) = 30)
   \<and> waiting_time (int n) \<le> waiting_time (int n + 1) \<and> waiting_time (int n) \<le> 5
   \<and> (waiting_time (int n) = 5 \<longrightarrow> waiting_time (int n + 1) = 5)
   \<and> escalate_timeout t \<le> 300
   \<and> (0 \<le> t \<and> t \<le> 300 \<longrightarrow> t \<le> escalate_timeout t)
   \<and> (t = 300 \<longrightarrow> escalate_timeout t = 300)
   \<and> t < next_timeout t (int n)"
proof -
  have w1: "wait_time (int n) = 30 \<longrightarrow> wait_time (int n + 1) = 30"
    using wait_time_mono[of "int n"] wait_time_le[of "int n + 1"] by linarith
  have w2: "waiting_time (int n) = 5 \<longrightarrow> waiting_time (int n + 1) = 5"
    using waiting_time_mono[of "int n"] waiting_time_le[of "int n + 1"] by linarith
  have e: "escalate_timeout t \<le> 300" "0 \<le> t \<and> t \<le> 300 \<longrightarrow> t \<le> escalate_timeout t"
          "t = 300 \<longrightarrow> escalate_timeout t = 300"
    by (simp_all add: escalate_timeout_def)
  have d: "wait_time (int n) = min (5 ^ n) 30" "waiting_time (int n) = min (2 ^ n) 5"
          "next_timeout t (int n) = t + min (3 ^ n) 10" "escalate_timeout t = min (t * 2) 300"
    by (simp_all add: wait_time_def waiting_time_def next_timeout_def escalate_timeout_def)
  have f: "slept (on_failure (int n) c) = slept c @ [min (5 ^ n) 30]"
          "self_timeouts (on_failure (int n) c)
             = map (\<lambda>kv. (fst kv, min (snd kv * 2) 300)) (self_timeouts c)"
    by (simp_all add: on_failure_def wait_time_def escalate_timeout_def)
  show ?thesis
    using w1 w2 e d f wait_time_mono[of "int n"] waiting_time_mono[of "int n"]
          wait_time_le[of "int n"] waiting_time_le[of "int n"] next_timeout_gt[of t "int n"]
    by blast
qed

theorem retry_backoff_witness:
  "wait_time (int 3) = 30 \<and> wait_time (int 3 + 1) = 30
   \<and> waiting_time (int 3) = 5 \<and> waiting_time (int 3 + 1) = 5
   \<and> (0::int) \<le> 100 \<and> (100::int) \<le> 300 \<and> 100 \<le> escalate_timeout 100
   \<and> escalate_timeout 300 = 300
   \<and> 60 < next_timeout 60 (int 3)"
proof -
  have h: "wait_time (int 3) = 30" "waiting_time (int 3) = 5"
    by (simp_all add: wait_time_def waiting_time_def)
  show ?thesis
    using h retry_backoff[of 3 _ 100] retry_backoff[of 3 _ 300] retry_backoff[of 3 _ 60]
    by simp
qed

section \<open>The retry loop of the compressor\<close>

lemma run_session_fails:
  assumes "\<not> session_succeeds sc" and "\<not> self_browser c"
  shows "\<exists>e c1. run_session sc out name c w = (Inl e, c1, w)
           \<and> attempted c1 = attempted c \<and> slept c1 = slept c"
  using assms by (auto simp: run_session_def session_succeeds_def Let_def)

lemma compress_loop_all_fail:
  assumes "\<not> self_browser c"
      and "\<forall>count \<in> set counts. \<forall>ts. \<not> session_succeeds (env count ts)"
  shows "fst (compress_loop env out name counts c w) = False
       \<and> attempted (fst (snd (compress_loop env out name counts c w))) = attempted c @ counts
       \<and> slept (fst (snd (compress_loop env out name counts c w)))
           = slept c @ map wait_time counts
       \<and> snd (snd (compress_loop env out name counts c w)) = w"
  using assms
proof (induction counts arbitrary: c)
  case Nil
  then show ?case by simp
next
  case (Cons count counts)
  let ?sc = "env count (self_timeouts c)"
  have nf: "\<not> session_succeeds ?sc" using Cons.prems(2) by simp
  have nb: "\<not> self_browser (c\<lparr>attempted := attempted c @ [count]\<rparr>)"
    using Cons.prems(1) by simp
  from run_session_fails[OF nf nb, of out name w] obtain e c1 where
    rs: "run_session ?sc out name (c\<lparr>attempted := attempted c @ [count]\<rparr>) w = (Inl e, c1, w)"
    and a1: "attempted c1 = attempted c @ [count]" and s1: "slept c1 = slept c"
    by auto
  let ?c2 = "finally_quit ?sc (on_failure count c1)"
  have c2: "\<not> self_browser ?c2" "attempted ?c2 = attempted c @ [count]"
           "slept ?c2 = slept c @ [wait_time count]"
    using a1 s1 by (simp_all add: finally_quit_def on_failure_def)
  have step: "compress_loop env out name (count # counts) c w
                = compress_loop env out name counts ?c2 w"
    using rs by (simp add: Let_def)
  have rest: "\<forall>count \<in> set counts. \<forall>ts. \<not> session_succeeds (env count ts)"
    using Cons.prems(2) by simp
  from Cons.IH[OF c2(1) rest] c2(2,3) show ?case
    unfolding step by simp
qed

lemma compress_all_fail:
  assumes "isfile w input_file" and "isdir w output_path" and "\<not> self_browser c"
      and "\<forall>count ts. 1 \<le> count \<and> count \<le> self_retry c \<longrightarrow> \<not> session_succeeds (env count ts)"
  shows "fst (compress env input_file output_path None c w) = False
       \<and> attempted (fst (snd (compress env input_file output_path None c w)))
           = attempted c @ [1..self_retry c]
       \<and> slept (fst (snd (compress env input_file output_path None c w)))
           = slept c @ map wait_time [1..self_retry c]
       \<and> snd (snd (compress env input_file output_path None c w)) = w"
proof -
  let ?c0 = "c\<lparr>self_file_name := Some (basename input_file),
                clog := clog c @ [(INFO, ''start compressing'')]\<rparr>"
  let ?run = "compress_loop env output_path (basename input_file) [1..self_retry c] ?c0 w"
  have nb: "\<not> self_browser ?c0" using assms(3) by simp
  have af: "\<forall>count \<in> set [1..self_retry c]. \<forall>ts. \<not> session_succeeds (env count ts)"
    using assms(4) by simp
  note l = compress_loop_all_fail[OF nb af, of output_path "basename input_file" w]
  obtain b c1 w1 where r: "?run = (b, c1, w1)" by (cases ?run) auto
  with l have b: "b = False" "attempted c1 = attempted c @ [1..self_retry c]"
     "slept c1 = slept c @ map wait_time [1..self_retry c]" "w1 = w" by simp_all
  show ?thesis
    using assms(1,2) r b by (simp add: compress_def Let_def)
qed

text \<open>
  C3. When the input file and the output directory are valid and every attempt of a
  task fails, whatever the stage that fails, \<open>compress\<close> runs the attempts
  \<open>1, ..., retry\<close> and no other (so exactly \<open>retry\<close> of them), waits after each,
  returns \<open>False\<close> and leaves the file system as it was; \<open>compress_task\<close> returns
  that \<open>False\<close> as a value, not as an exception.
\<close>

theorem exhausted_retries_return_failure:
  assumes "isfile w (os_path_join input_path name)" and "isdir w output_path"
      and "task_compressor_ok env name"
      and "\<forall>count ts. 1 \<le> count \<and> count \<le> self_retry (AudioCompressor cfg)
             \<longrightarrow> \<not> session_succeeds (sessions env (os_path_join input_path name) count ts)"
  shows "fst (compress (sessions env (os_path_join input_path name))
                (os_path_join input_path name) output_path None (AudioCompressor cfg) w) = False
       \<and> attempted (fst (snd (compress (sessions env (os_path_join input_path name))
                (os_path_join input_path name) output_path None (AudioCompressor cfg) w)))
           = [1..self_retry (AudioCompressor cfg)]
       \<and> int (length (attempted (fst (snd (compress (sessions env (os_path_join input_path name))
                (os_path_join input_path name) output_path None (AudioCompressor cfg) w)))))
           = max 0 (self_retry (AudioCompressor cfg))
       \<and> slept (fst (snd (compress (sessions env (os_path_join input_path name))
                (os_path_join input_path name) output_path None (AudioCompressor cfg) w)))
           = map wait_time [1..self_retry (AudioCompressor cfg)]
       \<and> compress_task env name input_path output_path cfg w = (Inr False, w)"
proof -
  let ?p = "os_path_join input_path name"
  let ?c = "AudioCompressor cfg"
  let ?run = "compress (sessions env ?p) ?p output_path None ?c w"
  have nb: "\<not> self_browser ?c" "attempted ?c = []" "slept ?c = []"
    by (simp_all add: AudioCompressor_def Let_def)
  note l = compress_all_fail[OF assms(1,2) nb(1) assms(4)]
  obtain b c1 w1 where r: "?run = (b, c1, w1)" by (cases ?run) auto
  with l nb have b: "b = False" "attempted c1 = [1..self_retry ?c]"
     "slept c1 = map wait_time [1..self_retry ?c]" "w1 = w" by simp_all
  have len: "int (length [1..self_retry ?c]) = max 0 (self_retry ?c)" by simp
  have task: "compress_task env name input_path output_path cfg w = (Inr False, w)"
    using assms(3) r b by (simp add: compress_task_def)
  show ?thesis using r b len task by simp
qed

lemma library_music_a:
  "isfile library (os_path_join ''music'' ''a.mp3'')" "isdir library ''compressed''"
  by code_simp+

theorem exhausted_retries_return_failure_witness:
  "isfile library (os_path_join ''music'' ''a.mp3'') \<and> isdir library ''compressed''
   \<and> task_compressor_ok stalled_service ''a.mp3''
   \<and> self_retry (AudioCompressor plain_config) = 3
   \<and> attempted (fst (snd (compress (sessions stalled_service (os_path_join ''music'' ''a.mp3''))
        (os_path_join ''music'' ''a.mp3'') ''compressed'' None
        (AudioCompressor plain_config) library))) = [1, 2, 3]
   \<and> slept (fst (snd (compress (sessions stalled_service (os_path_join ''music'' ''a.mp3''))
        (os_path_join ''music'' ''a.mp3'') ''compressed'' None
        (AudioCompressor plain_config) library))) = [5, 25, 30]
   \<and> compress_task stalled_service ''a.mp3'' ''music'' ''compressed'' plain_config library
       = (Inr False, library)"
proof -
  have ok: "task_compressor_ok stalled_service ''a.mp3''"
    by (simp add: stalled_service_def)
  have r: "self_retry (AudioCompressor plain_config) = 3"
    by (simp add: AudioCompressor_def plain_config_def dict_get_def Let_def)
  have fails: "\<forall>count ts. 1 \<le> count \<and> count \<le> self_retry (AudioCompressor plain_config)
      \<longrightarrow> \<not> session_succeeds (sessions stalled_service (os_path_join ''music'' ''a.mp3'') count ts)"
    by (simp add: stalled_service_def stalled_def session_succeeds_def)
  have up: "[1..(3::int)] = [1, 2, 3]" by (simp add: upto_rec1)
  have ws: "map wait_time [1, 2, 3] = [5, 25, 30]" by (simp add: wait_time_def)
  show ?thesis
    using exhausted_retries_return_failure[OF library_music_a ok fails] library_music_a ok r up ws
    by simp
qed

section \<open>The pools\<close>

lemma collect_count: "collect rs n = n + length (filter isl rs)"
  by (induction rs n rule: collect.induct) auto

lemma run_tasks_length:
  "length (fst (run_tasks env inp out cfg files w)) = length files"
proof (induction files arbitrary: w)
  case Nil
  then show ?case by simp
next
  case (Cons x files)
  obtain r w1 where t: "compress_task env x inp out cfg w = (r, w1)"
    by (cases "compress_task env x inp out cfg w") auto
  obtain rs w2 where u: "run_tasks env inp out cfg files w1 = (rs, w2)"
    by (cases "run_tasks env inp out cfg files w1") auto
  from Cons.IH[of w1] u have "length rs = length files" by simp
  with t u show ?case by simp
qed

lemma run_downloads_length:
  "length (fst (run_downloads env out fmt ti items w)) = length items"
proof (induction items arbitrary: w)
  case Nil
  then show ?case by simp
next
  case (Cons x items)
  obtain url name where x: "x = (url, name)" by (cases x) auto
  let ?w1 = "item_world (process_video_download (env url name)
                \<lparr> cfg_video_name = Some name, cfg_output_path = Some out,
                  cfg_download_url = Some url, cfg_audio_format = Some fmt,
                  cfg_track_information = Some ti \<rparr> w)"
  obtain rs w2 where u: "run_downloads env out fmt ti items ?w1 = (rs, w2)"
    by (cases "run_downloads env out fmt ti items ?w1") auto
  from Cons.IH[of ?w1] u have "length rs = length items" by simp
  with x u show ?case by (simp add: Let_def)
qed

text \<open>What the pools do guarantee: with valid directories and a constructed
  compressor, a run that lists all candidates collects one outcome per submitted
  file, counts the tasks that raised, and returns \<open>True\<close> exactly when none raised.\<close>

lemma compression_pool_accounting:
  assumes "isdir w inp" and "isdir w out" and "pool_compressor_ok env"
      and "returned (concurrent_compression env inp out cfg w) = Inr b"
  shows "length (outcomes (concurrent_compression env inp out cfg w))
           = length (submitted (concurrent_compression env inp out cfg w))
       \<and> failed_count (concurrent_compression env inp out cfg w)
           = length (filter isl (outcomes (concurrent_compression env inp out cfg w)))
       \<and> b = (failed_count (concurrent_compression env inp out cfg w) = 0)"
proof -
  let ?sl = "submit_loop w (get_existing_identifiers w out) inp (listdir w inp) []"
  obtain futures err where sl: "?sl = (futures, err)" by (cases ?sl) auto
  let ?rt = "run_tasks env inp out cfg futures w"
  obtain results w1 where rt: "?rt = (results, w1)" by (cases ?rt) auto
  have len: "length results = length futures"
    using run_tasks_length[of env inp out cfg futures w] rt by simp
  show ?thesis
  proof (cases err)
    case None
    then show ?thesis
      using assms sl rt len by (auto simp: concurrent_compression_def collect_count)
  next
    case (Some e)
    then show ?thesis
      using assms sl rt by (simp add: concurrent_compression_def)
  qed
qed

lemma acquisition_pool_accounting:
  assumes "returned (fst (concurrent_process env cfg w)) = Inr True"
  shows "length (outcomes (fst (concurrent_process env cfg w)))
           = length (submitted (fst (concurrent_process env cfg w)))
       \<and> filter isl (outcomes (fst (concurrent_process env cfg w))) = []"
proof -
  from assms obtain urls names out fmt ti where c: "pc_url_list cfg = Some urls"
    "pc_name_list cfg = Some names" "pc_output_path cfg = Some out"
    "pc_audio_format cfg = Some fmt" "pc_track_information cfg = Some ti"
    by (auto simp: concurrent_process_def rejected_def split: option.splits)
  let ?rd = "run_downloads env out fmt ti (zip urls names) w"
  obtain results w1 where rd: "?rd = (results, w1)" by (cases ?rd) auto
  have len: "length results = length (zip urls names)"
    using run_downloads_length[of env out fmt ti "zip urls names" w] rd by simp
  from assms c rd len show ?thesis
    by (auto simp: concurrent_process_def rejected_def collect_count split: if_splits)
qed

text \<open>
  C5 fails on the code. Both compressions below fail on every attempt, so each task
  returns \<open>False\<close>; the collection loop only counts tasks that raise, so the failed
  count stays 0 and the compression pool returns \<open>True\<close>. In the same way the single
  download below exhausts its retries and produces no file, the pipeline returns
  normally, and the acquisition pool returns \<open>True\<close>.
\<close>

theorem failed_items_are_not_counted:
  "submitted (concurrent_compression stalled_service ''music'' ''compressed''
                plain_config library) = [''a.mp3'', ''b.mp3'']
   \<and> outcomes (concurrent_compression stalled_service ''music'' ''compressed''
                plain_config library) = [Inr False, Inr False]
   \<and> failed_count (concurrent_compression stalled_service ''music'' ''compressed''
                plain_config library) = 0
   \<and> returned (concurrent_compression stalled_service ''music'' ''compressed''
                plain_config library) = Inr True
   \<and> map_option dl_attempts (item_download (process_video_download offline song library))
       = Some [(1, 60), (2, 63)]
   \<and> entries (item_world (process_video_download offline song library)) = entries library
   \<and> outcomes (fst (concurrent_process (\<lambda>url name. offline) one_song library)) = [Inr ()]
   \<and> failed_count (fst (concurrent_process (\<lambda>url name. offline) one_song library)) = 0
   \<and> returned (fst (concurrent_process (\<lambda>url name. offline) one_song library)) = Inr True"
  by code_simp

text \<open>
  C8 as stated fails: run on an empty item list, the acquisition pool logs an error
  and returns \<open>False\<close>.
\<close>

theorem empty_item_list_returns_false:
  "returned (fst (concurrent_process (\<lambda>url name. online) empty_catalog library)) = Inr False
   \<and> snd (concurrent_process (\<lambda>url name. online) empty_catalog library)
       = [(ERROR, ''URL list or name list is empty'')]"
  by code_simp

text \<open>
  C8, amended. When the catalog yields no items the entry point does not run the
  acquisition pool at all: there is nothing to do. The pool itself, given an empty URL
  list or an empty name list, submits nothing, leaves the file system as it is, logs
  one error and returns \<open>False\<close>.
\<close>

theorem empty_item_list_is_skipped_or_rejected:
  "main_acquisition env [] music_path fmt track_label w = None
   \<and> (pc_url_list cfg = Some [] \<or> pc_name_list cfg = Some []
      \<longrightarrow> returned (fst (concurrent_process env cfg w)) = Inr False
          \<and> submitted (fst (concurrent_process env cfg w)) = []
          \<and> outcomes (fst (concurrent_process env cfg w)) = []
          \<and> world_after (fst (concurrent_process env cfg w)) = w
          \<and> (\<exists>msg. snd (concurrent_process env cfg w) = [(ERROR, msg)]))"
  by (auto simp: main_acquisition_def concurrent_process_def rejected_def
           split: option.splits)

theorem empty_item_list_is_skipped_or_rejected_witness:
  "pc_url_list empty_catalog = Some []
   \<and> returned (fst (concurrent_process (\<lambda>url name. online) empty_catalog library)) = Inr False
   \<and> submitted (fst (concurrent_process (\<lambda>url name. online) empty_catalog library)) = []
   \<and> main_acquisition (\<lambda>url name. online) [] ''music'' ''mp3'' [] library = None"
proof -
  have h: "pc_url_list empty_catalog = Some []" by (simp add: empty_catalog_def)
  show ?thesis
    using h empty_item_list_is_skipped_or_rejected
              [of "\<lambda>url name. online" "''music''" "''mp3''" "[]" library empty_catalog]
    by blast
qed

section \<open>The scratch directory of a pipeline\<close>

lemma write_files_directories: "directories (write_files w dir names) = directories w"
  by (simp add: write_files_def)

lemma download_loop_directories:
  "directories (snd (snd (download_loop yg out counts timeout tr w))) = directories w"
proof (induction counts arbitrary: timeout tr w)
  case Nil
  then show ?case by simp
next
  case (Cons count counts)
  show ?case
    using Cons.IH by (simp add: Let_def write_files_directories)
qed

text \<open>A download whose attempts all fail runs every attempt of the list, with the
  timeout escalated from one attempt to the next, and waits after each.\<close>

lemma download_loop_all_fail:
  assumes "\<forall>count \<in> set counts. \<forall>t. fst (yg count t) \<noteq> Returncode 0"
  shows "fst (download_loop yg out counts timeout tr w) = False
       \<and> map fst (dl_attempts (fst (snd (download_loop yg out counts timeout tr w))))
           = map fst (dl_attempts tr) @ counts
       \<and> dl_slept (fst (snd (download_loop yg out counts timeout tr w)))
           = dl_slept tr @ map waiting_time counts"
  using assms
proof (induction counts arbitrary: timeout tr w)
  case Nil
  then show ?case by simp
next
  case (Cons count counts)
  have f: "fst (yg count timeout) \<noteq> Returncode 0" using Cons.prems by simp
  have r: "\<forall>count \<in> set counts. \<forall>t. fst (yg count t) \<noteq> Returncode 0"
    using Cons.prems by simp
  show ?case
    using f Cons.IH[OF r] by (simp add: Let_def)
qed

lemma download_video_directories:
  "directories (snd (download_video yg out retry timeout w)) = directories w"
proof (cases "isdir w out")
  case False
  then show ?thesis by (simp add: download_video_def)
next
  case True
  let ?ok = "30 \<le> timeout \<and> timeout \<le> 120"
  let ?tr0 = "\<lparr>dl_attempts = [], dl_slept = [],
               dl_log = (if ?ok then [] else [(ERROR, ''invalid timeout, reset to 60'')])\<rparr>"
  let ?run = "download_loop yg out [1..retry] (if ?ok then timeout else 60) ?tr0 w"
  obtain b tr w1 where r: "?run = (b, tr, w1)" by (cases ?run) auto
  have "directories w1 = directories w"
    using download_loop_directories[of yg out "[1..retry]" "if ?ok then timeout else 60" ?tr0 w] r
    by simp
  with True r show ?thesis
    by (cases b) (simp_all add: download_video_def Let_def)
qed

lemma copy2_directories: "directories (copy2 w dir name a) = directories w"
  by (simp add: copy2_def)

lemma os_remove_directories: "os_remove w dir name = Inr w1 \<Longrightarrow> directories w1 = directories w"
  by (auto simp: os_remove_def split: if_splits)

lemma processing_loop_directories:
  "directories (snd (processing_loop env inp out fmt retry files w)) = directories w"
proof (induction files arbitrary: w)
  case Nil
  then show ?case by simp
next
  case (Cons x files)
  show ?case
  proof (cases "convert_loop (ffmpeg env x) [1..retry]")
    case (Inl e)
    then show ?thesis by simp
  next
    case (Inr ok)
    show ?thesis
    proof (cases ok)
      case True
      let ?w1 = "copy2 w out (splitext_root x @ fmt) (encoded env x)"
      show ?thesis
      proof (cases "os_remove ?w1 inp x")
        case (Inl e)
        then show ?thesis using Inr True by (simp add: Let_def copy2_directories)
      next
        case (Inr w2)
        then show ?thesis
          using \<open>convert_loop (ffmpeg env x) [1..retry] = Inr ok\<close> True
                os_remove_directories[OF Inr]
          by (simp add: Let_def copy2_directories)
      qed
    next
      case False
      show ?thesis
      proof (cases "os_remove w inp x")
        case (Inl e)
        then show ?thesis using Inr False by simp
      next
        case (Inr w1)
        then show ?thesis
          using \<open>convert_loop (ffmpeg env x) [1..retry] = Inr ok\<close> False
                os_remove_directories[OF Inr] Cons.IH[of w1]
          by simp
      qed
    qed
  qed
qed

lemma download_processing_directories:
  "directories (snd (download_processing env inp out retry fmt w)) = directories w"
  by (simp add: download_processing_def Let_def processing_loop_directories)

lemma audio_track_processing_directories:
  "directories (fst (audio_track_processing env f ti w)) = directories w"
  by (auto simp: audio_track_processing_def split: sum.splits prod.splits)

lemma mkdtemp_fresh:
  "mkdtemp names w = Inr (d, w0) \<Longrightarrow>
     \<not> path_exists w d \<and> w0 = w\<lparr>directories := directories w @ [d]\<rparr>"
  by (induction names) (auto split: if_splits)

lemma cleanup_removes:
  "\<not> isdir (cleanup w p) p" "listdir (cleanup w p) p = []"
  "set (directories (cleanup w p)) \<subseteq> set (directories w) - {p}"
  by (auto simp: cleanup_def isdir_def listdir_def under_def filter_empty_conv)

lemma pipeline_run_cases:
  "(item_scratch (process_video_download env cfg w) = None
      \<and> item_world (process_video_download env cfg w) = w)
   \<or> (\<exists>d w1. item_scratch (process_video_download env cfg w) = Some d
         \<and> \<not> path_exists w d
         \<and> item_world (process_video_download env cfg w) = cleanup w1 d
         \<and> directories w1 = directories w @ [d])"
proof (cases "\<exists>name out url fmt ti. cfg_video_name cfg = Some name \<and> cfg_output_path cfg = Some out
          \<and> cfg_download_url cfg = Some url \<and> cfg_audio_format cfg = Some fmt
          \<and> cfg_track_information cfg = Some ti")
  case False
  then show ?thesis
    by (auto simp: process_video_download_def split: option.splits)
next
  case True
  then obtain name out url fmt ti where c: "cfg_video_name cfg = Some name"
    "cfg_output_path cfg = Some out" "cfg_download_url cfg = Some url"
    "cfg_audio_format cfg = Some fmt" "cfg_track_information cfg = Some ti" by blast
  show ?thesis
  proof (cases "mkdtemp (temp_names env) w")
    case (Inl e)
    then show ?thesis using c by (simp add: process_video_download_def)
  next
    case (Inr dw)
    obtain d w0 where dw: "dw = (d, w0)" by (cases dw) auto
    from mkdtemp_fresh[of "temp_names env" w d w0] Inr dw
    have fresh: "\<not> path_exists w d" and w0: "directories w0 = directories w @ [d]" by simp_all
    let ?dl = "download_video (you_get env) d DEFAULT_RETRY DEFAULT_DOWNLOAD_TIMEOUT w0"
    obtain tr w1 where dl: "?dl = (tr, w1)" by (cases ?dl) auto
    have w1: "directories w1 = directories w @ [d]"
      using download_video_directories
              [of "you_get env" d DEFAULT_RETRY DEFAULT_DOWNLOAD_TIMEOUT w0] dl w0
      by simp
    let ?dp = "download_processing (converter env) d out DEFAULT_CONVERSION_RETRY fmt w1"
    obtain r w2 where dp: "?dp = (r, w2)" by (cases ?dp) auto
    have w2: "directories w2 = directories w @ [d]"
      using download_processing_directories
              [of "converter env" d out DEFAULT_CONVERSION_RETRY fmt w1] dp w1
      by simp
    show ?thesis
    proof (cases r)
      case (Inl e)
      then show ?thesis
        using c Inr dw dl dp fresh w2 by (auto simp: process_video_download_def)
    next
      case (Inr u)
      let ?at = "audio_track_processing (tagger env) (os_path_join out (name @ ''.'' @ fmt)) ti w2"
      obtain w3 lg where at: "?at = (w3, lg)" by (cases ?at) auto
      have w3: "directories w3 = directories w @ [d]"
        using audio_track_processing_directories
                [of "tagger env" "os_path_join out (name @ ''.'' @ fmt)" ti w2] at w2
        by simp
      show ?thesis
        using c \<open>mkdtemp (temp_names env) w = Inr dw\<close> dw dl dp Inr at fresh w3
        by (auto simp: process_video_download_def)
    qed
  qed
qed

text \<open>
  C7. Whatever the configuration, the collaborators and the file system, a run of the
  pipeline either makes no scratch directory and leaves the file system as it was (a
  key is missing from the configuration, or no directory could be made), or makes one
  under a name that did not exist before and, on return, normal or exceptional, that
  directory is gone with everything in it. No directory exists afterwards that did
  not exist before.
\<close>

theorem scratch_directory_never_persists:
  "(case item_scratch (process_video_download env cfg w) of
      None \<Rightarrow> item_world (process_video_download env cfg w) = w
    | Some temp_dir \<Rightarrow>
        \<not> path_exists w temp_dir
        \<and> \<not> isdir (item_world (process_video_download env cfg w)) temp_dir
        \<and> listdir (item_world (process_video_download env cfg w)) temp_dir = [])
   \<and> set (directories (item_world (process_video_download env cfg w))) \<subseteq> set (directories w)"
proof -
  from pipeline_run_cases[of env cfg w] show ?thesis
  proof
    assume "item_scratch (process_video_download env cfg w) = None
              \<and> item_world (process_video_download env cfg w) = w"
    then show ?thesis by simp
  next
    assume "\<exists>d w1. item_scratch (process_video_download env cfg w) = Some d
         \<and> \<not> path_exists w d
         \<and> item_world (process_video_download env cfg w) = cleanup w1 d
         \<and> directories w1 = directories w @ [d]"
    then obtain d w1 where s: "item_scratch (process_video_download env cfg w) = Some d"
      and f: "\<not> path_exists w d"
      and iw: "item_world (process_video_download env cfg w) = cleanup w1 d"
      and d1: "directories w1 = directories w @ [d]" by blast
    have "set (directories (cleanup w1 d)) \<subseteq> set (directories w)"
      using cleanup_removes(3)[of w1 d] d1 by auto
    with s f iw cleanup_removes(1,2)[of w1 d] show ?thesis by simp
  qed
qed

theorem scratch_directory_never_persists_witness:
  "item_scratch (process_video_download offline song library) = Some ''tmp0''
   \<and> map_option dl_attempts (item_download (process_video_download offline song library))
       = Some [(1, 60), (2, 63)]
   \<and> item_result (process_video_download offline song library) = Inr ()
   \<and> \<not> path_exists library ''tmp0''
   \<and> \<not> isdir (item_world (process_video_download offline song library)) ''tmp0''
   \<and> listdir (item_world (process_video_download offline song library)) ''tmp0'' = []
   \<and> item_scratch (process_video_download online song library) = Some ''tmp0''
   \<and> \<not> isdir (item_world (process_video_download online song library)) ''tmp0''"
proof -
  have a: "item_scratch (process_video_download offline song library) = Some ''tmp0''"
          "map_option dl_attempts (item_download (process_video_download offline song library))
             = Some [(1, 60), (2, 63)]"
          "item_result (process_video_download offline song library) = Inr ()"
          "item_scratch (process_video_download online song library) = Some ''tmp0''"
    by code_simp+
  show ?thesis
    using a scratch_directory_never_persists[of offline song library]
          scratch_directory_never_persists[of online song library]
    by simp
qed

section \<open>Tagging\<close>

lemma getall_addressed: "getall t k = map snd (filter (\<lambda>kv. has_key t k \<longrightarrow> fst kv = k) (addressed k t))"
proof (cases "has_key t k")
  case True
  have "filter (\<lambda>kv. fst kv = k) (addressed k t) = filter (\<lambda>kv. fst kv = k) t"
    unfolding addressed_def filter_filter by (rule filter_cong) auto
  with True show ?thesis by (simp add: getall_def)
next
  case False
  have "\<And>kv. kv \<in> set t \<Longrightarrow> fst kv \<noteq> k"
    using False by (auto simp: has_key_def)
  then have "addressed k t = filter (\<lambda>kv. startswith (fst kv) (k @ '':'')) t"
    unfolding addressed_def by (intro filter_cong) auto
  with False show ?thesis by (simp add: getall_def)
qed

lemma has_key_addressed: "has_key t k \<longleftrightarrow> has_key (addressed k t) k"
  by (auto simp: has_key_def addressed_def)

lemma getall_cong_addressed:
  assumes "addressed k t = addressed k t'"
  shows "getall t k = getall t' k"
proof -
  have "has_key t k \<longleftrightarrow> has_key t' k"
    using assms has_key_addressed[of t k] has_key_addressed[of t' k] by simp
  then show ?thesis
    using assms by (simp add: getall_addressed[of t k] getall_addressed[of t' k])
qed

lemma getall_empty: "getall t k = [] \<longleftrightarrow> addressed k t = []"
  by (auto simp: getall_def addressed_def has_key_def filter_empty_conv)

lemma addressed_delall:
  assumes "length k' = length k" and "k' \<noteq> k"
  shows "addressed k (delall t k') = addressed k t"
proof -
  have keep: "\<And>kv :: string \<times> 'v. fst kv = k \<or> startswith (fst kv) (k @ '':'')
               \<Longrightarrow> fst kv \<noteq> k' \<and> \<not> startswith (fst kv) (k' @ '':'')"
  proof -
    fix kv :: "string \<times> 'v"
    assume a: "fst kv = k \<or> startswith (fst kv) (k @ '':'')"
    show "fst kv \<noteq> k' \<and> \<not> startswith (fst kv) (k' @ '':'')"
    proof (intro conjI notI)
      assume "fst kv = k'"
      with a assms show False
        by (auto simp: startswith_def dest: arg_cong[where f = length])
    next
      assume b: "startswith (fst kv) (k' @ '':'')"
      from a show False
      proof
        assume "fst kv = k"
        with b assms show False
          by (auto simp: startswith_def dest: arg_cong[where f = length])
      next
        assume "startswith (fst kv) (k @ '':'')"
        with b assms show False by (auto simp: startswith_def)
      qed
    qed
  qed
  have a: "filter (\<lambda>kv. fst kv = k \<or> startswith (fst kv) (k @ '':''))
             (filter (\<lambda>kv. fst kv \<noteq> k') t)
           = filter (\<lambda>kv. fst kv = k \<or> startswith (fst kv) (k @ '':'')) t"
    unfolding filter_filter by (rule filter_cong) (use keep in blast)+
  have b: "filter (\<lambda>kv. fst kv = k \<or> startswith (fst kv) (k @ '':''))
             (filter (\<lambda>kv. \<not> startswith (fst kv) (k' @ '':'')) t)
           = filter (\<lambda>kv. fst kv = k \<or> startswith (fst kv) (k @ '':'')) t"
    unfolding filter_filter by (rule filter_cong) (use keep in blast)+
  show ?thesis
    unfolding addressed_def delall_def using a b by simp
qed

lemma addressed_add_other:
  assumes "fst kv \<noteq> k" and "\<not> startswith (fst kv) (k @ '':'')"
  shows "addressed k (add t kv) = addressed k t"
  using assms by (induction t) (auto simp: addressed_def)

lemma addressed_add_new:
  assumes "addressed k t = []"
  shows "addressed k (add t (k, f)) = [(k, f)]"
  using assms by (induction t) (auto simp: addressed_def split: if_splits)

lemma addressed_cleared:
  "addressed ''TIT3'' (foldl delall t cleared_tags) = addressed ''TIT3'' t"
  by (simp add: cleared_tags_def addressed_delall)

lemma addressed_retag:
  "addressed ''TIT3'' (retag year name ti mime data t) =
     (if addressed ''TIT3'' t = [] then [(''TIT3'', TextFrame (splitext_root name))]
      else addressed ''TIT3'' t)"
proof -
  let ?t0 = "foldl delall t cleared_tags"
  let ?t1 = "if getall ?t0 ''TIT3'' = []
             then add ?t0 (''TIT3'', TextFrame (splitext_root name)) else ?t0"
  have t1: "addressed ''TIT3'' ?t1 =
     (if addressed ''TIT3'' t = [] then [(''TIT3'', TextFrame (splitext_root name))]
      else addressed ''TIT3'' t)"
    by (simp add: getall_empty addressed_cleared addressed_add_new)
  have "addressed ''TIT3'' (retag year name ti mime data t) = addressed ''TIT3'' ?t1"
    unfolding retag_def Let_def
    by (simp add: addressed_add_other startswith_def)
  with t1 show ?thesis by simp
qed

lemma getall_retag:
  "getall (retag year name ti mime data t) ''TIT3'' =
     (if getall t ''TIT3'' = [] then [TextFrame (splitext_root name)] else getall t ''TIT3'')"
proof (cases "addressed ''TIT3'' t = []")
  case True
  have "addressed ''TIT3'' [(''TIT3'', TextFrame (splitext_root name))]
          = [(''TIT3'', TextFrame (splitext_root name))]"
    by (simp add: addressed_def)
  with True have "addressed ''TIT3'' (retag year name ti mime data t)
               = addressed ''TIT3'' [(''TIT3'', TextFrame (splitext_root name))]"
    by (simp add: addressed_retag)
  from getall_cong_addressed[OF this]
  have g: "getall (retag year name ti mime data t) ''TIT3''
             = getall [(''TIT3'', TextFrame (splitext_root name))] ''TIT3''" .
  have "getall [(''TIT3'', TextFrame (splitext_root name))] ''TIT3''
          = [TextFrame (splitext_root name)]"
    by (simp add: getall_def has_key_def)
  with g True show ?thesis
    by (simp add: getall_empty)
next
  case False
  then have "addressed ''TIT3'' (retag year name ti mime data t) = addressed ''TIT3'' t"
    by (simp add: addressed_retag)
  from getall_cong_addressed[OF this] False show ?thesis
    by (simp add: getall_empty)
qed

lemma read_cover_unusable:
  "\<not> cover_usable c \<Longrightarrow> \<exists>msg. read_cover c = Inl (ERROR, msg)"
  by (auto simp: cover_usable_def read_cover_def cover_handler_def split: sum.splits bool.splits)

lemma pipeline_result_ignores_tagger:
  "item_result (process_video_download (env\<lparr>tagger := tg\<rparr>) cfg w)
     = item_result (process_video_download (env\<lparr>tagger := tg'\<rparr>) cfg w)"
  by (simp add: process_video_download_def split: option.splits sum.splits prod.splits)

text \<open>
  C9. When the cover is not a valid image or cannot be read (one of
  \<open>guess_mime\<close>, \<open>is_image\<close>, reading the file raises, or \<open>is_image\<close> answers
  \<open>False\<close>), the tagging step returns with the file system unchanged, so no tag is
  written, and with exactly one log entry, an error. The step has no exceptional
  result, and the result of the enclosing pipeline does not depend on the tagging
  environment at all.
\<close>

theorem unusable_cover_aborts_tagging_only:
  assumes "\<not> cover_usable (cover_at env (dict_get track_info ''Cover'' []))"
  shows "fst (audio_track_processing env input_file track_info w) = w
       \<and> (\<exists>msg. snd (audio_track_processing env input_file track_info w) = [(ERROR, msg)])
       \<and> item_result (process_video_download (ienv\<lparr>tagger := env\<rparr>) cfg w0)
           = item_result (process_video_download (ienv\<lparr>tagger := with_cover\<rparr>) cfg w0)"
proof -
  from read_cover_unusable[OF assms] obtain msg where
    rc: "read_cover (cover_at env (dict_get track_info ''Cover'' [])) = Inl (ERROR, msg)" by blast
  have "fst (audio_track_processing env input_file track_info w) = w
       \<and> (\<exists>msg. snd (audio_track_processing env input_file track_info w) = [(ERROR, msg)])"
    using rc by (cases "ID3 w input_file") (simp_all add: audio_track_processing_def)
  then show ?thesis
    using pipeline_result_ignores_tagger[where env = ienv and tg = env and tg' = with_cover]
    by simp
qed

theorem unusable_cover_aborts_tagging_only_witness:
  "\<not> cover_usable (cover_at no_cover (dict_get [] ''Cover'' []))
   \<and> fst (audio_track_processing no_cover ''music/a.mp3'' [] library) = library
   \<and> snd (audio_track_processing no_cover ''music/a.mp3'' [] library)
       = [(ERROR, ''cover file path invalid'')]
   \<and> item_result (process_video_download (online\<lparr>tagger := no_cover\<rparr>) song library) = Inr ()"
proof -
  have h: "\<not> cover_usable (cover_at no_cover (dict_get [] ''Cover'' []))"
    by (simp add: cover_usable_def no_cover_def)
  have l: "snd (audio_track_processing no_cover ''music/a.mp3'' [] library)
             = [(ERROR, ''cover file path invalid'')]"
          "item_result (process_video_download (online\<lparr>tagger := with_cover\<rparr>) song library)
             = Inr ()"
    by code_simp+
  show ?thesis
    using h l unusable_cover_aborts_tagging_only[OF h, of "''music/a.mp3''" library online song library]
    by simp
qed

text \<open>
  C10. TIT3 is not among the frames the tagging operation clears. For a file whose
  tag carries a TIT3 frame, the tag on disk after the operation, written or not,
  carries the same TIT3 frames as before. For a file whose tag carries none, the
  tag afterwards is either the old one (the operation aborted or the save failed) or
  carries exactly one TIT3 frame, whose text is the base name of the file, that is
  its name without directory and extension; when the cover is usable and the save
  succeeds it is the latter.
\<close>

theorem provenance_frame_is_kept:
  "''TIT3'' \<notin> set cleared_tags
   \<and> (id3_of w input_file = Tags t \<and> getall t ''TIT3'' \<noteq> []
      \<longrightarrow> (\<exists>t'. id3_of (fst (audio_track_processing env input_file track_info w)) input_file
                    = Tags t'
                \<and> getall t' ''TIT3'' = getall t ''TIT3''))
   \<and> (id3_of w input_file = Tags t \<and> getall t ''TIT3'' = []
      \<longrightarrow> (\<exists>t'. id3_of (fst (audio_track_processing env input_file track_info w)) input_file
                    = Tags t'
                \<and> (t' = t \<or> getall t' ''TIT3''
                               = [TextFrame (splitext_root (basename input_file))])))
   \<and> (id3_of w input_file = Tags t \<and> getall t ''TIT3'' = []
        \<and> cover_usable (cover_at env (dict_get track_info ''Cover'' []))
        \<and> save_ok env input_file
      \<longrightarrow> (\<exists>t'. id3_of (fst (audio_track_processing env input_file track_info w)) input_file
                    = Tags t'
                \<and> getall t' ''TIT3'' = [TextFrame (splitext_root (basename input_file))]))"
proof (intro conjI impI)
  show "''TIT3'' \<notin> set cleared_tags" by (simp add: cleared_tags_def)
next
  assume a: "id3_of w input_file = Tags t \<and> getall t ''TIT3'' \<noteq> []"
  then show "\<exists>t'. id3_of (fst (audio_track_processing env input_file track_info w)) input_file
                    = Tags t' \<and> getall t' ''TIT3'' = getall t ''TIT3''"
    by (auto simp: audio_track_processing_def ID3_def getall_retag split: sum.splits)
next
  assume a: "id3_of w input_file = Tags t \<and> getall t ''TIT3'' = []"
  then show "\<exists>t'. id3_of (fst (audio_track_processing env input_file track_info w)) input_file
                    = Tags t'
                \<and> (t' = t \<or> getall t' ''TIT3''
                               = [TextFrame (splitext_root (basename input_file))])"
    by (auto simp: audio_track_processing_def ID3_def getall_retag split: sum.splits)
next
  assume a: "id3_of w input_file = Tags t \<and> getall t ''TIT3'' = []
        \<and> cover_usable (cover_at env (dict_get track_info ''Cover'' []))
        \<and> save_ok env input_file"
  then have "\<exists>m d. read_cover (cover_at env (dict_get track_info ''Cover'' [])) = Inr (m, d)"
    by (auto simp: cover_usable_def read_cover_def split: sum.splits bool.splits)
  with a show "\<exists>t'. id3_of (fst (audio_track_processing env input_file track_info w)) input_file
                    = Tags t'
                \<and> getall t' ''TIT3'' = [TextFrame (splitext_root (basename input_file))]"
    by (auto simp: audio_track_processing_def ID3_def getall_retag)
qed

theorem provenance_frame_is_kept_witness:
  "id3_of library ''music/a.mp3'' = Tags [(''TIT3'', TextFrame ''song'')]
   \<and> getall [(''TIT3'', TextFrame ''song'')] ''TIT3'' = [TextFrame ''song'']
   \<and> (\<exists>u. id3_of (fst (audio_track_processing with_cover ''music/a.mp3'' [] library))
               ''music/a.mp3'' = Tags u
            \<and> getall u ''TIT3'' = [TextFrame ''song''])
   \<and> id3_of fresh_download ''music/song.mp3'' = Tags [(''TALB'', TextFrame ''album'')]
   \<and> getall [(''TALB'', TextFrame ''album'')] ''TIT3'' = []
   \<and> cover_usable (cover_at with_cover (dict_get [] ''Cover'' []))
   \<and> save_ok with_cover ''music/song.mp3''
   \<and> splitext_root (basename ''music/song.mp3'') = ''song''
   \<and> (\<exists>u. id3_of (fst (audio_track_processing with_cover ''music/song.mp3'' [] fresh_download))
               ''music/song.mp3'' = Tags u
            \<and> getall u ''TIT3'' = [TextFrame ''song''])"
proof -
  have a: "id3_of library ''music/a.mp3'' = Tags [(''TIT3'', TextFrame ''song'')]"
          "getall [(''TIT3'', TextFrame ''song'')] ''TIT3'' = [TextFrame ''song'']"
    by (simp_all add: library_def getall_def has_key_def)
  have b: "id3_of fresh_download ''music/song.mp3'' = Tags [(''TALB'', TextFrame ''album'')]"
          "getall [(''TALB'', TextFrame ''album'')] ''TIT3'' = []"
          "cover_usable (cover_at with_cover (dict_get [] ''Cover'' []))"
          "save_ok with_cover ''music/song.mp3''"
    by (simp_all add: fresh_download_def getall_def has_key_def startswith_def
                      cover_usable_def with_cover_def)
  have c: "splitext_root (basename ''music/song.mp3'') = ''song''"
    by code_simp
  show ?thesis
    using a b c
      provenance_frame_is_kept[of library "''music/a.mp3''" "[(''TIT3'', TextFrame ''song'')]"
         with_cover "[]"]
      provenance_frame_is_kept[of fresh_download "''music/song.mp3''"
         "[(''TALB'', TextFrame ''album'')]" with_cover "[]"]
    by simp
qed

end
